theory Spec2Isabelle
  imports Complex_Main
begin

section \<open>The DQN family of \<open>mushroom/algorithms/value/dqn.py\<close>\<close>

text \<open>
  The module is Python 2 (it uses \<open>xrange\<close>), so \<open>/\<close> on two integers is floor division
  and \<open>%\<close> takes the sign of the divisor: both are \<open>div\<close> and \<open>mod\<close> on \<open>int\<close>.
  NumPy's floating point numbers are read as real numbers (no rounding, no NaN, no
  infinities). A two-dimensional array is a list of rows, a batch is a list of samples.
\<close>

subsection \<open>Errors, variants, collaborators\<close>

datatype error =
  AssertionError | AttributeError | IndexError | InvalidState | TypeError | ValueError
  | ZeroDivisionError

text \<open>The four classes of the module; a method call dispatches on the class.\<close>

datatype variant = DQN | DoubleDQN | AveragedDQN | WeightedDQN

text \<open>
  What \<open>Regressor(...).model\<close> holds: one approximator, or an \<open>Ensemble\<close> with indexed
  slots. \<open>'w\<close> is the parameter vector of one approximator (\<open>get_weights\<close> reads it,
  \<open>set_weights\<close> replaces it).
\<close>

datatype 'w model = Single 'w | Ensemble "'w list"

text \<open>
  One stored transition. A state is the stack of the last frames (\<open>'x list\<close>); the sixth
  component that \<open>ReplayMemory.get\<close> returns is discarded by \<open>fit\<close> and left out.
\<close>

record 'x transition =
  t_state :: "'x list"
  t_action :: int
  t_reward :: real
  t_next_state :: "'x list"
  t_absorbing :: bool

text \<open>The calls an agent issues on its collaborators, in the order it issues them.\<close>

datatype call =
  ReplayAdd | ReplayGet "nat option" | ApproximatorFit | TargetSetWeights "nat option"
  | BufferAdd | BufferGet | PolicyUpdate | PolicyDrawAction

text \<open>
  The collaborators whose code is outside the module, taken as parameters:
  the replay memory (\<open>add\<close>, and \<open>get\<close> with the random draw made explicit as a number),
  one approximator (\<open>predict\<close> gives the Q-vector of a state, one entry per action;
  \<open>fit\<close> gives the new parameters), the prediction of an ensemble asked without a slot
  index, and the policy (\<open>update\<close>, and \<open>draw_action\<close> over the approximator bound by
  \<open>set_q\<close>).
\<close>

record ('x, 'w, 'm, 'p) collab =
  rm_add :: "'x transition list \<Rightarrow> 'm \<Rightarrow> 'm"
  rm_get :: "nat option \<Rightarrow> nat \<Rightarrow> 'm \<Rightarrow> error + 'x transition list"
  predict :: "'w \<Rightarrow> 'x list \<Rightarrow> real list"
  ens_predict :: "'w list \<Rightarrow> 'x list \<Rightarrow> real list"
  regr_fit :: "'x list list \<Rightarrow> int list \<Rightarrow> real list \<Rightarrow> 'w \<Rightarrow> 'w"
  pi_update :: "'p \<Rightarrow> 'p"
  pi_draw_action :: "'w \<Rightarrow> 'x list \<Rightarrow> 'p \<Rightarrow> int \<times> 'p"

subsection \<open>The NumPy operations the module uses\<close>

definition np_any :: "bool list \<Rightarrow> bool" where
  "np_any bs = list_ex (\<lambda>b. b) bs"

definition np_clip :: "real \<Rightarrow> real \<Rightarrow> real \<Rightarrow> real" where
  "np_clip lo hi r = min (max r lo) hi"

text \<open>\<open>1 - absorbing\<close> on one flag.\<close>

definition not_absorbing :: "bool \<Rightarrow> real" where
  "not_absorbing b = 1 - (if b then 1 else 0)"

text \<open>\<open>q *= 1 - absorbing.reshape(-1, 1)\<close>: row \<open>i\<close> of \<open>q\<close> is scaled by \<open>1 - absorbing[i]\<close>.\<close>

definition mask_rows :: "real list list \<Rightarrow> bool list \<Rightarrow> real list list" where
  "mask_rows q absorbing = map2 (\<lambda>row b. map (\<lambda>v. v * not_absorbing b) row) q absorbing"

text \<open>\<open>W *= 1 - absorbing\<close> on a vector.\<close>

definition mask_vec :: "real list \<Rightarrow> bool list \<Rightarrow> real list" where
  "mask_vec W absorbing = map2 (\<lambda>v b. v * not_absorbing b) W absorbing"

text \<open>\<open>np.max\<close> and \<open>np.argmax\<close> of one row; both raise on an empty row, and \<open>argmax\<close>
  returns the first index of the maximum.\<close>

fun row_max :: "real list \<Rightarrow> error + real" where
  "row_max [] = Inl ValueError"
| "row_max (x # xs) = Inr (fold max xs x)"

fun argmax_from :: "real \<Rightarrow> nat \<Rightarrow> nat \<Rightarrow> real list \<Rightarrow> nat" where
  "argmax_from best bi i [] = bi"
| "argmax_from best bi i (x # xs) =
     (if best < x then argmax_from x i (Suc i) xs else argmax_from best bi (Suc i) xs)"

fun row_argmax :: "real list \<Rightarrow> error + nat" where
  "row_argmax [] = Inl ValueError"
| "row_argmax (x # xs) = Inr (argmax_from x 0 1 xs)"

text \<open>A list of results is a result: the first error, or all the values.\<close>

fun collect :: "(error + 'a) list \<Rightarrow> error + 'a list" where
  "collect [] = Inr []"
| "collect (Inl e # rs) = Inl e"
| "collect (Inr v # rs) = (case collect rs of Inl e \<Rightarrow> Inl e | Inr vs \<Rightarrow> Inr (v # vs))"

definition np_max_axis1 :: "real list list \<Rightarrow> error + real list" where
  "np_max_axis1 q = collect (map row_max q)"

definition np_argmax_axis1 :: "real list list \<Rightarrow> error + nat list" where
  "np_argmax_axis1 q = collect (map row_argmax q)"

text \<open>\<open>np.mean(v, axis=0)\<close> over a list of equally long rows: the entrywise mean.\<close>

definition mean_rows :: "real list list \<Rightarrow> real list" where
  "mean_rows rows =
     map (\<lambda>a. (\<Sum>row\<leftarrow>rows. row ! a) / real (length rows)) [0..<length (hd rows)]"

text \<open>\<open>np.mean(q, axis=0)\<close> over a list of equally shaped matrices: row \<open>b\<close> of the result
  is the entrywise mean of the rows \<open>b\<close>.\<close>

definition np_mean_axis0 :: "real list list list \<Rightarrow> real list list" where
  "np_mean_axis0 ms = map (\<lambda>b. mean_rows (map (\<lambda>m. m ! b) ms)) [0..<length (hd ms)]"

definition np_dot :: "real list \<Rightarrow> real list \<Rightarrow> real" where
  "np_dot u v = (\<Sum>(x, y)\<leftarrow>zip u v. x * y)"

text \<open>\<open>np.unique(v, return_counts=True)\<close>: the sorted distinct values, each with the
  number of its occurrences.\<close>

definition np_unique_counts :: "nat list \<Rightarrow> (nat \<times> nat) list" where
  "np_unique_counts v = map (\<lambda>a. (a, count_list v a)) (remdups (sort v))"

text \<open>\<open>count = np.zeros(n); count[max_idx] = max_count\<close>.\<close>

definition scatter_counts :: "nat \<Rightarrow> (nat \<times> nat) list \<Rightarrow> real list" where
  "scatter_counts n uc = fold (\<lambda>(a, k) count. count[a := real k]) uc (replicate n 0)"

text \<open>\<open>np.random.randint(low, high)\<close>: an integer of the half-open range, chosen by the
  random source (the number \<open>r\<close>); an empty range raises.\<close>

definition np_randint :: "int \<Rightarrow> int \<Rightarrow> nat \<Rightarrow> error + int" where
  "np_randint low high r =
     (if low \<ge> high then Inl ValueError else Inr (low + int r mod (high - low)))"

subsection \<open>Frame buffer\<close>

text \<open>
  Modelled from the spec: the class \<open>Buffer\<close> of \<open>mushroom.utils.replay_memory\<close> is not
  in the sources. Spec 4.2: \<open>add\<close> pushes a frame and evicts the oldest one once at
  capacity (FIFO, fixed size); \<open>get\<close> fails with InvalidState if the buffer is not yet
  full and otherwise returns the ordered stack of all buffered frames.
\<close>

definition buf_add :: "nat \<Rightarrow> 'x \<Rightarrow> 'x list \<Rightarrow> 'x list" where
  "buf_add cap x buf = (let b = buf @ [x] in drop (length b - cap) b)"

definition buf_get :: "nat \<Rightarrow> 'x list \<Rightarrow> error + 'x list" where
  "buf_get cap buf = (if length buf < cap then Inl InvalidState else Inr buf)"

subsection \<open>The agent\<close>

text \<open>
  \<open>alg_params\<close> is a dictionary read with \<open>get\<close>: a missing key gives \<open>None\<close> or the
  default written in \<open>__init__\<close>. \<open>max_replay_size\<close> and \<open>history_length\<close> also build the
  replay memory, which is passed in ready-made.
\<close>

record alg_params =
  p_batch_size :: "nat option"
  p_n_approximators :: "nat option"
  p_clip_reward :: "bool option"
  p_target_update_frequency :: "int option"
  p_max_no_op_actions :: "int option"
  p_no_op_action_value :: "int option"
  p_history_length :: "nat option"

text \<open>
  The attributes of an agent. \<open>kind\<close> is its class. \<open>buffer_size\<close> and \<open>buffer\<close> are the
  \<open>Buffer\<close> object, \<open>mdp_info\<close> is \<open>mdp_info['action_space'].n\<close> (absent before
  \<open>initialize\<close>), \<open>n_fitted_target_models\<close> exists on the averaging classes only (the
  other classes never read it), and \<open>calls\<close> records the calls issued on the
  collaborators so far.
\<close>

record ('x, 'w, 'm, 'p) dqn =
  kind :: variant
  batch_size :: "nat option"
  n_approximators :: nat
  clip_reward :: bool
  target_update_frequency :: "int option"
  max_no_op_actions :: int
  no_op_action_value :: int
  replay_memory :: 'm
  buffer_size :: nat
  buffer :: "'x list"
  n_updates :: int
  episode_steps :: int
  no_op_actions :: "int option"
  approximator :: 'w
  target_approximator :: "'w model"
  policy :: 'p
  gamma :: real
  mdp_info :: "nat option"
  n_fitted_target_models :: nat
  calls :: "call list"

text \<open>
  \<open>__init__\<close> of the four classes. \<open>w0\<close> is the parameter vector of the freshly built train
  approximator. The target regressor is built with \<open>n_models = n_approximators\<close>; the
  constructor itself treats its model as one approximator when \<open>n_approximators\<close> is 1
  and as indexed slots otherwise, and copies the train parameters into every one of
  them. The averaging classes then set \<open>n_fitted_target_models\<close> and assert that the
  target model is an \<open>Ensemble\<close>.
\<close>

definition dqn_init ::
  "variant \<Rightarrow> alg_params \<Rightarrow> 'w \<Rightarrow> 'p \<Rightarrow> real \<Rightarrow> 'm \<Rightarrow> error + ('x, 'w, 'm, 'p) dqn" where
  "dqn_init k prm w0 pol g m0 =
     (let N = (case p_n_approximators prm of None \<Rightarrow> 1 | Some n \<Rightarrow> n);
          s = \<lparr> kind = k,
                batch_size = p_batch_size prm,
                n_approximators = N,
                clip_reward = (case p_clip_reward prm of None \<Rightarrow> True | Some b \<Rightarrow> b),
                target_update_frequency = p_target_update_frequency prm,
                max_no_op_actions = (case p_max_no_op_actions prm of None \<Rightarrow> 0 | Some n \<Rightarrow> n),
                no_op_action_value = (case p_no_op_action_value prm of None \<Rightarrow> 0 | Some n \<Rightarrow> n),
                replay_memory = m0,
                buffer_size = (case p_history_length prm of None \<Rightarrow> 1 | Some n \<Rightarrow> n),
                buffer = [],
                n_updates = 0,
                episode_steps = 0,
                no_op_actions = None,
                approximator = w0,
                target_approximator = (if N = 1 then Single w0 else Ensemble (replicate N w0)),
                policy = pol,
                gamma = g,
                mdp_info = None,
                n_fitted_target_models = 0,
                calls = [] \<rparr>
      in case k of
           DQN \<Rightarrow> Inr s
         | DoubleDQN \<Rightarrow> Inr s
         | _ \<Rightarrow>
             (let s' = s\<lparr>n_fitted_target_models := 1\<rparr>
              in case target_approximator s' of
                   Single _ \<Rightarrow> Inl AssertionError
                 | Ensemble _ \<Rightarrow> Inr s'))"

text \<open>\<open>initialize\<close> stores \<open>mdp_info\<close> (and hands it to the replay memory).\<close>

definition initialize :: "nat \<Rightarrow> ('x, 'w, 'm, 'p) dqn \<Rightarrow> ('x, 'w, 'm, 'p) dqn" where
  "initialize n s = s\<lparr>mdp_info := Some n\<rparr>"

subsection \<open>Predictions of the target regressor\<close>

text \<open>\<open>target_approximator.predict(next_state)\<close>: one Q-vector per state.\<close>

definition predict_all ::
  "('x, 'w, 'm, 'p) collab \<Rightarrow> 'w model \<Rightarrow> 'x list list \<Rightarrow> real list list" where
  "predict_all c m next_state =
     (case m of
        Single w \<Rightarrow> map (predict c w) next_state
      | Ensemble ws \<Rightarrow> map (ens_predict c ws) next_state)"

text \<open>\<open>target_approximator.predict(next_state, max_a)\<close>: the Q-value of each state at the
  action given for it.\<close>

definition predict_actions ::
  "('x, 'w, 'm, 'p) collab \<Rightarrow> 'w model \<Rightarrow> 'x list list \<Rightarrow> nat list \<Rightarrow> error + real list" where
  "predict_actions c m next_state max_a =
     collect (map2 (\<lambda>row a. if a < length row then Inr (row ! a) else Inl IndexError)
                (predict_all c m next_state) max_a)"

text \<open>\<open>target_approximator.predict(next_state, idx=idx)\<close>: the prediction of one slot.\<close>

definition predict_idx ::
  "('x, 'w, 'm, 'p) collab \<Rightarrow> 'w model \<Rightarrow> nat \<Rightarrow> 'x list list \<Rightarrow> error + real list list" where
  "predict_idx c m idx next_state =
     (case m of
        Single w \<Rightarrow> Inl TypeError
      | Ensemble ws \<Rightarrow>
          if idx < length ws then Inr (map (predict c (ws ! idx)) next_state)
          else Inl IndexError)"

text \<open>\<open>for idx in xrange(n): ... predict(next_state, idx=idx)\<close>.\<close>

definition predict_slots ::
  "('x, 'w, 'm, 'p) collab \<Rightarrow> 'w model \<Rightarrow> nat \<Rightarrow> 'x list list \<Rightarrow> error + real list list list"
  where
  "predict_slots c m n next_state = collect (map (\<lambda>idx. predict_idx c m idx next_state) [0..<n])"

subsection \<open>\<open>_next_q\<close>\<close>

text \<open>\<open>DQN._next_q\<close>.\<close>

definition next_q_dqn ::
  "('x, 'w, 'm, 'p) collab \<Rightarrow> ('x, 'w, 'm, 'p) dqn \<Rightarrow> 'x list list \<Rightarrow> bool list \<Rightarrow> error + real list"
  where
  "next_q_dqn c s next_state absorbing =
     (let q = predict_all c (target_approximator s) next_state;
          q = (if np_any absorbing then mask_rows q absorbing else q)
      in np_max_axis1 q)"

text \<open>\<open>DoubleDQN._next_q\<close>.\<close>

definition next_q_double ::
  "('x, 'w, 'm, 'p) collab \<Rightarrow> ('x, 'w, 'm, 'p) dqn \<Rightarrow> 'x list list \<Rightarrow> bool list \<Rightarrow> error + real list"
  where
  "next_q_double c s next_state absorbing =
     (let q = map (predict c (approximator s)) next_state;
          q = (if np_any absorbing then mask_rows q absorbing else q)
      in case np_argmax_axis1 q of
           Inl e \<Rightarrow> Inl e
         | Inr max_a \<Rightarrow> predict_actions c (target_approximator s) next_state max_a)"

text \<open>\<open>AveragedDQN._next_q\<close>. With no fitted slot NumPy's mean of an empty list is NaN; the
  counter starts at 1 and never decreases, and the model raises there.\<close>

definition next_q_averaged ::
  "('x, 'w, 'm, 'p) collab \<Rightarrow> ('x, 'w, 'm, 'p) dqn \<Rightarrow> 'x list list \<Rightarrow> bool list \<Rightarrow> error + real list"
  where
  "next_q_averaged c s next_state absorbing =
     (case predict_slots c (target_approximator s) (n_fitted_target_models s) next_state of
        Inl e \<Rightarrow> Inl e
      | Inr q \<Rightarrow>
          if q = [] then Inl ValueError
          else
            (let q = np_mean_axis0 q;
                 q = (if np_any absorbing then mask_rows q absorbing else q)
             in np_max_axis1 q))"

text \<open>\<open>samples[i] = predict(next_state, idx=i)\<close> stores a prediction into an array with
  \<open>n\<close> columns: a row of \<open>n\<close> values is stored as it is, a row of one value is broadcast,
  any other row raises.\<close>

definition store_row :: "nat \<Rightarrow> real list \<Rightarrow> error + real list" where
  "store_row n row =
     (if length row = n then Inr row
      else if length row = 1 then Inr (replicate n (hd row))
      else Inl ValueError)"

definition store_sample :: "nat \<Rightarrow> real list list \<Rightarrow> error + real list list" where
  "store_sample n m = collect (map (store_row n) m)"

text \<open>The body of the loop over the samples in \<open>WeightedDQN._next_q\<close>; \<open>rows\<close> is
  \<open>samples[:, i, :]\<close>, one row per fitted slot.\<close>

definition weighted_value :: "nat \<Rightarrow> nat \<Rightarrow> real list list \<Rightarrow> error + real" where
  "weighted_value n nf rows =
     (let means = mean_rows rows
      in case np_argmax_axis1 rows of
           Inl e \<Rightarrow> Inl e
         | Inr max_idx \<Rightarrow>
             (let uc = np_unique_counts max_idx;
                  count = scatter_counts n uc;
                  w = map (\<lambda>k. k / real nf) count
              in Inr (np_dot w means)))"

text \<open>\<open>WeightedDQN._next_q\<close>. As in the averaged class, no fitted slot gives NaN in NumPy
  and raises in the model.\<close>

definition next_q_weighted ::
  "('x, 'w, 'm, 'p) collab \<Rightarrow> ('x, 'w, 'm, 'p) dqn \<Rightarrow> 'x list list \<Rightarrow> bool list \<Rightarrow> error + real list"
  where
  "next_q_weighted c s next_state absorbing =
     (case mdp_info s of
        None \<Rightarrow> Inl AttributeError
      | Some n \<Rightarrow>
          (case predict_slots c (target_approximator s) (n_fitted_target_models s) next_state of
             Inl e \<Rightarrow> Inl e
           | Inr preds \<Rightarrow>
               (case collect (map (store_sample n) preds) of
                  Inl e \<Rightarrow> Inl e
                | Inr samples \<Rightarrow>
                    if samples = [] then Inl ValueError
                    else
                      (case collect (map (\<lambda>i. weighted_value n (n_fitted_target_models s)
                                                  (map (\<lambda>m. m ! i) samples))
                                      [0..<length next_state]) of
                         Inl e \<Rightarrow> Inl e
                       | Inr W \<Rightarrow> Inr (if np_any absorbing then mask_vec W absorbing else W)))))"

text \<open>The method \<open>_next_q\<close> of an agent, by its class.\<close>

definition next_q ::
  "('x, 'w, 'm, 'p) collab \<Rightarrow> ('x, 'w, 'm, 'p) dqn \<Rightarrow> 'x list list \<Rightarrow> bool list \<Rightarrow> error + real list"
  where
  "next_q c s next_state absorbing =
     (case kind s of
        DQN \<Rightarrow> next_q_dqn c s next_state absorbing
      | DoubleDQN \<Rightarrow> next_q_double c s next_state absorbing
      | AveragedDQN \<Rightarrow> next_q_averaged c s next_state absorbing
      | WeightedDQN \<Rightarrow> next_q_weighted c s next_state absorbing)"

subsection \<open>\<open>_update_target\<close>\<close>

text \<open>
  A method returns its result, or the exception it raised, together with the agent as
  the call left it: the attributes assigned before a \<open>raise\<close> stay assigned.

  \<open>DQN._update_target\<close>, inherited by \<open>DoubleDQN\<close>. An absent \<open>target_update_frequency\<close> is
  \<open>None\<close> and \<open>%\<close> raises on it, as it does on 0. \<open>set_weights\<close> is a method of one
  approximator: the constructor never calls it on an ensemble but on its slots.
\<close>

definition update_target_dqn ::
  "('x, 'w, 'm, 'p) dqn \<Rightarrow> (error + unit) \<times> ('x, 'w, 'm, 'p) dqn" where
  "update_target_dqn s =
     (case target_update_frequency s of
        None \<Rightarrow> (Inl TypeError, s)
      | Some f \<Rightarrow>
          if f = 0 then (Inl ZeroDivisionError, s)
          else if n_updates s mod f = 0 then
            (case target_approximator s of
               Single _ \<Rightarrow>
                 (Inr (), s\<lparr>target_approximator := Single (approximator s),
                            calls := calls s @ [TargetSetWeights None]\<rparr>)
             | Ensemble _ \<Rightarrow> (Inl AttributeError, s))
          else (Inr (), s))"

text \<open>\<open>AveragedDQN._update_target\<close>, inherited by \<open>WeightedDQN\<close>.\<close>

definition update_target_averaged ::
  "('x, 'w, 'm, 'p) dqn \<Rightarrow> (error + unit) \<times> ('x, 'w, 'm, 'p) dqn" where
  "update_target_averaged s =
     (case target_update_frequency s of
        None \<Rightarrow> (Inl TypeError, s)
      | Some f \<Rightarrow>
          if f = 0 then (Inl ZeroDivisionError, s)
          else if n_updates s mod f = 0 then
            (if n_approximators s = 0 then (Inl ZeroDivisionError, s)
             else
               (let idx = nat ((n_updates s div f) mod int (n_approximators s))
                in case target_approximator s of
                     Single _ \<Rightarrow> (Inl TypeError, s)
                   | Ensemble ws \<Rightarrow>
                       if idx < length ws then
                         (let s = s\<lparr>target_approximator := Ensemble (ws[idx := approximator s]),
                                     calls := calls s @ [TargetSetWeights (Some idx)]\<rparr>
                          in if n_fitted_target_models s < n_approximators s
                             then (Inr (), s\<lparr>n_fitted_target_models := n_fitted_target_models s + 1\<rparr>)
                             else (Inr (), s))
                       else (Inl IndexError, s)))
          else (Inr (), s))"

definition update_target ::
  "('x, 'w, 'm, 'p) dqn \<Rightarrow> (error + unit) \<times> ('x, 'w, 'm, 'p) dqn" where
  "update_target s =
     (case kind s of
        DQN \<Rightarrow> update_target_dqn s
      | DoubleDQN \<Rightarrow> update_target_dqn s
      | AveragedDQN \<Rightarrow> update_target_averaged s
      | WeightedDQN \<Rightarrow> update_target_averaged s)"

subsection \<open>\<open>fit\<close>\<close>

text \<open>\<open>q = reward + self._gamma * q_next\<close> on two vectors.\<close>

definition bootstrap :: "real \<Rightarrow> real list \<Rightarrow> real list \<Rightarrow> real list" where
  "bootstrap g reward q_next = map2 (\<lambda>r qn. r + g * qn) reward q_next"

text \<open>\<open>DQN.fit\<close>, inherited by the three other classes. \<open>r\<close> is the random draw of
  \<open>ReplayMemory.get\<close>.\<close>

definition fit ::
  "('x, 'w, 'm, 'p) collab \<Rightarrow> 'x transition list \<Rightarrow> int \<Rightarrow> nat \<Rightarrow> ('x, 'w, 'm, 'p) dqn
     \<Rightarrow> (error + unit) \<times> ('x, 'w, 'm, 'p) dqn" where
  "fit c dataset n_iterations r s =
     (let s = s\<lparr>replay_memory := rm_add c dataset (replay_memory s),
                 calls := calls s @ [ReplayAdd]\<rparr>
      in if n_iterations = 0 then (Inr (), s)
         else if n_iterations \<noteq> 1 then (Inl AssertionError, s)
         else
           (let s = s\<lparr>calls := calls s @ [ReplayGet (batch_size s)]\<rparr>
            in case rm_get c (batch_size s) r (replay_memory s) of
                 Inl e \<Rightarrow> (Inl e, s)
               | Inr batch \<Rightarrow>
                   (let state = map t_state batch;
                        action = map t_action batch;
                        reward = map t_reward batch;
                        next_state = map t_next_state batch;
                        absorbing = map t_absorbing batch;
                        reward = (if clip_reward s then map (np_clip (- 1) 1) reward else reward)
                    in case next_q c s next_state absorbing of
                         Inl e \<Rightarrow> (Inl e, s)
                       | Inr q_next \<Rightarrow>
                           (let q = bootstrap (gamma s) reward q_next;
                                s = s\<lparr>approximator := regr_fit c state action q (approximator s),
                                       calls := calls s @ [ApproximatorFit]\<rparr>;
                                s = s\<lparr>n_updates := n_updates s + 1\<rparr>
                            in update_target s))))"

subsection \<open>\<open>draw_action\<close> and \<open>episode_start\<close>\<close>

text \<open>
  \<open>DQN.draw_action\<close>. Before the first \<open>episode_start\<close> the no-op budget is \<open>None\<close>, and
  in Python 2 no integer is smaller than \<open>None\<close>. The action is an array of one
  integer, read as that integer. \<open>Agent.draw_action\<close> asks the policy.
\<close>

definition draw_action ::
  "('x, 'w, 'm, 'p) collab \<Rightarrow> 'x \<Rightarrow> ('x, 'w, 'm, 'p) dqn
     \<Rightarrow> (error + int) \<times> ('x, 'w, 'm, 'p) dqn" where
  "draw_action c x s =
     (let s = s\<lparr>buffer := buf_add (buffer_size s) x (buffer s), calls := calls s @ [BufferAdd]\<rparr>
      in if (case no_op_actions s of None \<Rightarrow> False | Some n \<Rightarrow> episode_steps s < n) then
           (let action = no_op_action_value s;
                s = s\<lparr>policy := pi_update c (policy s), calls := calls s @ [PolicyUpdate]\<rparr>
            in (Inr action, s\<lparr>episode_steps := episode_steps s + 1\<rparr>))
         else
           (let s = s\<lparr>calls := calls s @ [BufferGet]\<rparr>
            in case buf_get (buffer_size s) (buffer s) of
                 Inl e \<Rightarrow> (Inl e, s)
               | Inr extended_state \<Rightarrow>
                   (let (action, pol) = pi_draw_action c (approximator s) extended_state (policy s);
                        s = s\<lparr>policy := pol, calls := calls s @ [PolicyDrawAction]\<rparr>
                    in (Inr action, s\<lparr>episode_steps := episode_steps s + 1\<rparr>))))"

text \<open>\<open>DQN.episode_start\<close>; \<open>r\<close> is the random draw. When \<open>randint\<close> raises, neither
  attribute is assigned.\<close>

definition episode_start ::
  "nat \<Rightarrow> ('x, 'w, 'm, 'p) dqn \<Rightarrow> (error + unit) \<times> ('x, 'w, 'm, 'p) dqn" where
  "episode_start r s =
     (case np_randint (int (buffer_size s)) (max_no_op_actions s + 1) r of
        Inl e \<Rightarrow> (Inl e, s)
      | Inr n \<Rightarrow> (Inr (), s\<lparr>no_op_actions := Some n, episode_steps := 0\<rparr>))"

subsection \<open>Sequences of calls\<close>

text \<open>Successive \<open>fit\<close> calls, each with its dataset, its \<open>n_iterations\<close> and its random
  draw. A caller may catch an exception and go on, so the run continues after a call
  that raised; the results of the calls are returned in order.\<close>

fun fits ::
  "('x, 'w, 'm, 'p) collab \<Rightarrow> ('x transition list \<times> int \<times> nat) list \<Rightarrow> ('x, 'w, 'm, 'p) dqn
     \<Rightarrow> (error + unit) list \<times> ('x, 'w, 'm, 'p) dqn" where
  "fits c [] s = ([], s)"
| "fits c ((dataset, n_iterations, r) # rest) s =
     (let (res, s') = fit c dataset n_iterations r s;
          (ress, s'') = fits c rest s'
      in (res # ress, s''))"

text \<open>Successive \<open>draw_action\<close> calls on the frames of one episode, up to the first
  exception.\<close>

fun draw_actions ::
  "('x, 'w, 'm, 'p) collab \<Rightarrow> 'x list \<Rightarrow> ('x, 'w, 'm, 'p) dqn
     \<Rightarrow> (error + int list) \<times> ('x, 'w, 'm, 'p) dqn" where
  "draw_actions c [] s = (Inr [], s)"
| "draw_actions c (x # xs) s =
     (case draw_action c x s of
        (Inl e, s') \<Rightarrow> (Inl e, s')
      | (Inr a, s') \<Rightarrow>
          (case draw_actions c xs s' of
             (Inl e, s'') \<Rightarrow> (Inl e, s'')
           | (Inr acts, s'') \<Rightarrow> (Inr (a # acts), s'')))"

text \<open>The slots written by the target updates recorded in a list of calls, oldest
  first (\<open>None\<close> is a write of the whole model).\<close>

fun syncs :: "call list \<Rightarrow> nat option list" where
  "syncs [] = []"
| "syncs (TargetSetWeights i # cs) = i # syncs cs"
| "syncs (_ # cs) = syncs cs"

subsection \<open>A small instance\<close>

text \<open>
  Concrete collaborators on which the theorems below are instantiated: frames are
  numbers, the parameter vector of an approximator is the Q-vector it predicts for every
  state, the replay memory is the list of its transitions and \<open>get\<close> returns the first
  \<open>batch_size\<close> of them after a rotation by the random draw, fitting adds the sum of the
  targets to every parameter, and the policy counts its updates and always plays
  action 7.
\<close>

definition ex_collab :: "(nat, real list, nat transition list, nat) collab" where
  "ex_collab =
     \<lparr> rm_add = (\<lambda>d m. m @ d),
       rm_get = (\<lambda>n r m. case n of
                    None \<Rightarrow> Inl TypeError
                  | Some k \<Rightarrow> if length m < k then Inl InvalidState else Inr (take k (rotate r m))),
       predict = (\<lambda>w x. w),
       ens_predict = (\<lambda>ws x. mean_rows ws),
       regr_fit = (\<lambda>st a q w. map (\<lambda>v. v + sum_list q) w),
       pi_update = Suc,
       pi_draw_action = (\<lambda>w x p. (7, p)) \<rparr>"

definition ex_params :: alg_params where
  "ex_params =
     \<lparr> p_batch_size = Some 1, p_n_approximators = None, p_clip_reward = None,
       p_target_update_frequency = Some 2, p_max_no_op_actions = None,
       p_no_op_action_value = None, p_history_length = None \<rparr>"

text \<open>An agent of class \<open>k\<close> with \<open>n_approximators = n\<close>, built by the constructor with
  \<open>gamma = 1/2\<close>, an empty replay memory and a train approximator predicting \<open>[1, 2]\<close>.\<close>

definition ex_init ::
  "variant \<Rightarrow> nat option \<Rightarrow> error + (nat, real list, nat transition list, nat) dqn" where
  "ex_init k n = dqn_init k (ex_params\<lparr>p_n_approximators := n\<rparr>) [1, 2] 0 (1 / 2) []"

definition ex_agent ::
  "variant \<Rightarrow> nat option \<Rightarrow> (nat, real list, nat transition list, nat) dqn" where
  "ex_agent k n = (case ex_init k n of Inr s \<Rightarrow> s)"

definition ex_transition :: "real \<Rightarrow> bool \<Rightarrow> nat transition" where
  "ex_transition r b =
     \<lparr> t_state = [0], t_action = 0, t_reward = r, t_next_state = [1], t_absorbing = b \<rparr>"

text \<open>Two calls \<open>fit(..., 1)\<close>: the first brings one transition, the second none.\<close>

definition ex_run2 :: "(nat transition list \<times> int \<times> nat) list" where
  "ex_run2 = [([ex_transition 5 False], 1, 0), ([], 1, 0)]"

subsection \<open>The averaged estimate, as the specification words it\<close>

text \<open>
  The mean over the first \<open>n\<close> slots of the Q-value of action \<open>a\<close> in state \<open>x\<close>, and the
  value the specification gives for a sample: the maximum, over the \<open>A\<close> actions, of
  that mean after the mask of the absorbing flag was applied to it.
\<close>

definition mean_q :: "('x, 'w, 'm, 'p) collab \<Rightarrow> 'w list \<Rightarrow> nat \<Rightarrow> 'x list \<Rightarrow> nat \<Rightarrow> real" where
  "mean_q c ws n x a = (\<Sum>i\<leftarrow>[0..<n]. predict c (ws ! i) x ! a) / real n"

definition averaged_next_q_spec ::
  "('x, 'w, 'm, 'p) collab \<Rightarrow> 'w list \<Rightarrow> nat \<Rightarrow> nat \<Rightarrow> 'x list \<Rightarrow> bool \<Rightarrow> real" where
  "averaged_next_q_spec c ws n A x b =
     Max (set (map (\<lambda>a. mean_q c ws n x a * (if b then 0 else 1)) [0..<A]))"

subsection \<open>The weighted estimate, as the specification words it\<close>

text \<open>
  The weight of action \<open>a\<close> for a state: the number of the first \<open>n\<close> slots whose own
  \<open>argmax\<close> is \<open>a\<close>, divided by \<open>n\<close>. The weighted value: the dot product of the weights
  and the mean Q-vector over the \<open>A\<close> actions.
\<close>

definition weight_spec :: "('x, 'w, 'm, 'p) collab \<Rightarrow> 'w list \<Rightarrow> nat \<Rightarrow> 'x list \<Rightarrow> nat \<Rightarrow> real" where
  "weight_spec c ws n x a =
     real (length (filter (\<lambda>j. row_argmax (predict c (ws ! j) x) = Inr a) [0..<n])) / real n"

definition weighted_next_q_spec ::
  "('x, 'w, 'm, 'p) collab \<Rightarrow> 'w list \<Rightarrow> nat \<Rightarrow> nat \<Rightarrow> 'x list \<Rightarrow> real" where
  "weighted_next_q_spec c ws n A x =
     (\<Sum>a\<leftarrow>[0..<A]. weight_spec c ws n x a * mean_q c ws n x a)"

text \<open>A \<open>WeightedDQN\<close> agent of the small instance after \<open>initialize\<close> with two actions,
  with the ensemble \<open>ws\<close> as target and \<open>n\<close> slots counted as fitted.\<close>

definition ex_weighted :: "real list list \<Rightarrow> nat \<Rightarrow> (nat, real list, nat transition list, nat) dqn" where
  "ex_weighted ws n =
     (initialize 2 (ex_agent WeightedDQN (Some 2)))
       \<lparr>target_approximator := Ensemble ws, n_fitted_target_models := n\<rparr>"

text \<open>A base agent of the small instance built with \<open>max_no_op_actions = 3\<close> and
  \<open>history_length = 2\<close>.\<close>

definition ex_noop_agent :: "(nat, real list, nat transition list, nat) dqn" where
  "ex_noop_agent =
     (case dqn_init DQN (ex_params\<lparr>p_max_no_op_actions := Some 3, p_history_length := Some 2\<rparr>)
             [1, 2] 0 (1 / 2) [] of Inr s \<Rightarrow> s)"

section \<open>Properties\<close>

subsection \<open>The example agents, evaluated\<close>

lemma ex_agent_DQN:
  "ex_agent DQN None =
     \<lparr>kind = DQN, batch_size = Some 1, n_approximators = 1, clip_reward = True,
      target_update_frequency = Some 2, max_no_op_actions = 0, no_op_action_value = 0,
      replay_memory = [], buffer_size = 1, buffer = [], n_updates = 0, episode_steps = 0,
      no_op_actions = None, approximator = [1, 2], target_approximator = Single [1, 2],
      policy = 0, gamma = 1 / 2, mdp_info = None, n_fitted_target_models = 0, calls = []\<rparr>"
  by (simp add: ex_agent_def ex_init_def ex_params_def dqn_init_def)

subsection \<open>What a target update leaves alone\<close>

lemma update_target_keeps:
  "replay_memory (snd (update_target s)) = replay_memory s"
  "\<exists>rest. calls (snd (update_target s)) = calls s @ rest"
  by (auto simp: update_target_def update_target_dqn_def update_target_averaged_def Let_def
      split: variant.splits option.splits model.splits)

subsection \<open>\<open>fit\<close>: the replay memory and \<open>n_iterations\<close>\<close>

text \<open>
  Claim C8. Every call \<open>fit(dataset, n_iterations)\<close>, of any of the four classes, first
  appends the dataset to the replay memory: the first call it issues is
  \<open>ReplayMemory.add\<close>, and the memory it leaves is the old one with the dataset added.
  With \<open>n_iterations = 0\<close> nothing else happens: the call returns, and no other attribute
  and no other collaborator is touched (no sampling, no fit, \<open>n_updates\<close> unchanged).
  With \<open>n_iterations\<close> other than 0 and 1 the call raises \<open>AssertionError\<close>, after the
  dataset was added.
\<close>

theorem fit_appends_first:
  "(\<exists>rest. calls (snd (fit c dataset n r s)) = calls s @ ReplayAdd # rest) \<and>
   replay_memory (snd (fit c dataset n r s)) = rm_add c dataset (replay_memory s) \<and>
   fit c dataset 0 r s =
     (Inr (), s\<lparr>replay_memory := rm_add c dataset (replay_memory s),
                calls := calls s @ [ReplayAdd]\<rparr>) \<and>
   (n \<noteq> 0 \<and> n \<noteq> 1 \<longrightarrow>
      fit c dataset n r s =
        (Inl AssertionError, s\<lparr>replay_memory := rm_add c dataset (replay_memory s),
                                 calls := calls s @ [ReplayAdd]\<rparr>))"
proof -
  have a: "\<exists>rest. calls (snd (fit c dataset n r s)) = calls s @ ReplayAdd # rest"
  proof (cases "n = 1")
    case False
    then show ?thesis by (simp add: fit_def Let_def)
  next
    case True
    have ut: "\<exists>rest. calls (snd (update_target t)) = calls s @ ReplayAdd # rest"
      if "\<exists>mid. calls t = calls s @ ReplayAdd # mid" for t :: "('a, 'b, 'c, 'd) dqn"
      using that update_target_keeps(2) [of t] by auto
    show ?thesis using True
      by (auto simp: fit_def Let_def split: sum.splits intro!: ut)
  qed
  have b: "replay_memory (snd (fit c dataset n r s)) = rm_add c dataset (replay_memory s)"
    by (auto simp: fit_def Let_def update_target_keeps(1) split: sum.splits)
  show ?thesis using a b by (simp add: fit_def Let_def)
qed

theorem fit_appends_first_witness:
  "(2::int) \<noteq> 0 \<and> (2::int) \<noteq> 1 \<and>
   fit ex_collab [ex_transition 5 False] 2 0 (ex_agent DQN None) =
     (Inl AssertionError,
      (ex_agent DQN None)\<lparr>replay_memory := [ex_transition 5 False], calls := [ReplayAdd]\<rparr>)"
  using fit_appends_first [of ex_collab "[ex_transition 5 False]" 2 0 "ex_agent DQN None"]
  by (simp add: ex_agent_DQN ex_collab_def)

subsection \<open>\<open>episode_start\<close> on an empty range\<close>

text \<open>
  Claim C10. Whenever \<open>max_no_op_actions < history_length\<close> (the size of the frame
  buffer), \<open>episode_start\<close> raises \<open>ValueError\<close> whatever the random source gives, and
  leaves the agent as it was: \<open>randint\<close> is asked for a number of an empty range. An
  agent built without the keys \<open>max_no_op_actions\<close> and \<open>history_length\<close> has the defaults 0
  and 1 and is such an agent.
\<close>

theorem episode_start_empty_range:
  "(max_no_op_actions s < int (buffer_size s) \<longrightarrow> episode_start r s = (Inl ValueError, s)) \<and>
   (p_max_no_op_actions prm = None \<and> p_history_length prm = None \<and>
      dqn_init k prm w0 pol g m0 = Inr s' \<longrightarrow> episode_start r s' = (Inl ValueError, s'))"
  by (auto simp: episode_start_def np_randint_def dqn_init_def Let_def
      split: variant.splits model.splits if_splits)

theorem episode_start_empty_range_witness:
  "max_no_op_actions (ex_agent DQN None) < int (buffer_size (ex_agent DQN None)) \<and>
   p_max_no_op_actions ex_params = None \<and> p_history_length ex_params = None \<and>
   dqn_init DQN ex_params [1, 2] 0 (1 / 2) [] = Inr (ex_agent DQN None) \<and>
   episode_start 3 (ex_agent DQN None) = (Inl ValueError, ex_agent DQN None)"
  using episode_start_empty_range
    [of "ex_agent DQN None" 3 ex_params DQN "[1, 2]" 0 "1 / 2" "[]" "ex_agent DQN None"]
  by (simp add: ex_agent_DQN) (simp add: ex_params_def dqn_init_def)

subsection \<open>Absorbing samples in \<open>_next_q\<close>\<close>

lemma collect_Inr:
  "collect rs = Inr vs \<Longrightarrow> length vs = length rs \<and> (\<forall>i<length rs. rs ! i = Inr (vs ! i))"
proof (induction rs arbitrary: vs)
  case Nil
  then show ?case by simp
next
  case (Cons r rs)
  then show ?case
  proof (cases r)
    case (Inl e)
    with Cons.prems show ?thesis by simp
  next
    case (Inr x)
    with Cons.prems obtain ws where ws: "collect rs = Inr ws" "vs = x # ws"
      by (auto split: sum.splits)
    from Cons.IH [OF ws(1)] have "length ws = length rs" "\<forall>i<length rs. rs ! i = Inr (ws ! i)"
      by auto
    then show ?thesis using Inr ws(2) by (auto simp: nth_Cons split: nat.splits)
  qed
qed

lemma collect_all_Inr: "collect (map Inr vs) = Inr vs"
  by (induction vs) auto

lemma fold_max_zero: "fold max (map (\<lambda>v. 0) xs) (0::real) = 0"
  by (induction xs) auto

lemma row_max_zero:
  "row_max (map (\<lambda>v. v * 0) row) = Inr m \<Longrightarrow> m = 0"
proof (cases row)
  case Nil
  then show "row_max (map (\<lambda>v. v * 0) row) = Inr m \<Longrightarrow> m = 0" by simp
next
  case (Cons x xs)
  have "fold max (map (\<lambda>v. v * 0) xs) (x * 0) = 0"
    using fold_max_zero [of xs] by simp
  then show "row_max (map (\<lambda>v. v * 0) row) = Inr m \<Longrightarrow> m = 0" using Cons by simp
qed

lemma np_any_nth: "i < length bs \<Longrightarrow> bs ! i \<Longrightarrow> np_any bs"
  unfolding np_any_def list_ex_iff using nth_mem by blast

lemma max_masked_zero:
  assumes "np_max_axis1 (mask_rows q absorbing) = Inr v" "i < length q" "i < length absorbing"
    "absorbing ! i"
  shows "v ! i = 0"
proof -
  have li: "i < length (map row_max (mask_rows q absorbing))"
    using assms(2,3) by (simp add: mask_rows_def)
  from collect_Inr [OF assms(1) [unfolded np_max_axis1_def]] li
  have "map row_max (mask_rows q absorbing) ! i = Inr (v ! i)"
    by blast
  then have "row_max (map (\<lambda>v. v * 0) (q ! i)) = Inr (v ! i)"
    using assms(2,3,4) by (simp add: mask_rows_def not_absorbing_def)
  then show ?thesis by (rule row_max_zero)
qed



lemma predict_all_length: "length (predict_all c m next_state) = length next_state"
  by (cases m) (simp_all add: predict_all_def)

lemma predict_slots_length:
  assumes "predict_slots c m n next_state = Inr q"
  shows "length q = n" "\<forall>p\<in>set q. length p = length next_state"
proof -
  from collect_Inr [OF assms [unfolded predict_slots_def]]
  have l: "length q = n" and e: "\<forall>i<n. predict_idx c m i next_state = Inr (q ! i)"
    by auto
  show "length q = n" by (rule l)
  show "\<forall>p\<in>set q. length p = length next_state"
  proof
    fix p assume "p \<in> set q"
    then obtain i where i: "i < n" "q ! i = p" using l by (auto simp: in_set_conv_nth)
    with e have "predict_idx c m i next_state = Inr p" by auto
    then show "length p = length next_state"
      by (auto simp: predict_idx_def split: model.splits if_splits)
  qed
qed

lemma np_mean_axis0_length:
  "q \<noteq> [] \<Longrightarrow> \<forall>p\<in>set q. length p = n \<Longrightarrow> length (np_mean_axis0 q) = n"
  by (cases q) (auto simp: np_mean_axis0_def)

text \<open>
  In \<open>DQN\<close>, \<open>AveragedDQN\<close> and \<open>WeightedDQN\<close> the value that \<open>_next_q\<close> returns for an
  absorbing sample is 0, whatever the approximators predict.
\<close>

lemma next_q_absorbing_zero:
  assumes k: "kind s \<noteq> DoubleDQN"
    and len: "length absorbing = length next_state"
    and r: "next_q c s next_state absorbing = Inr v"
    and i: "i < length absorbing" "absorbing ! i"
  shows "v ! i = 0"
proof (cases "kind s")
  case DQN
  with r have "np_max_axis1 (mask_rows (predict_all c (target_approximator s) next_state) absorbing) = Inr v"
    using np_any_nth [OF i] by (simp add: next_q_def next_q_dqn_def Let_def)
  then show ?thesis using i len by (intro max_masked_zero) (auto simp: predict_all_length)
next
  case DoubleDQN
  with k show ?thesis by simp
next
  case AveragedDQN
  from r AveragedDQN obtain q where
    q: "predict_slots c (target_approximator s) (n_fitted_target_models s) next_state = Inr q"
    by (simp add: next_q_def next_q_averaged_def split: sum.splits)
  from r AveragedDQN q have q2: "q \<noteq> []"
    "np_max_axis1 (mask_rows (np_mean_axis0 q) absorbing) = Inr v"
    using np_any_nth [OF i]
    by (simp_all add: next_q_def next_q_averaged_def Let_def split: if_splits)
  have "length (np_mean_axis0 q) = length next_state"
    using q2(1) predict_slots_length(2) [OF q] by (rule np_mean_axis0_length)
  then show ?thesis using q2(2) i len by (intro max_masked_zero) auto
next
  case WeightedDQN
  with r obtain n where n: "mdp_info s = Some n"
    by (auto simp: next_q_def next_q_weighted_def split: option.splits)
  from r WeightedDQN n obtain preds where preds:
    "predict_slots c (target_approximator s) (n_fitted_target_models s) next_state = Inr preds"
    by (simp add: next_q_def next_q_weighted_def split: sum.splits)
  from r WeightedDQN n preds obtain samples where samples:
    "collect (map (store_sample n) preds) = Inr samples"
    by (simp add: next_q_def next_q_weighted_def split: sum.splits)
  from r WeightedDQN n preds samples obtain W where W:
    "collect (map (\<lambda>i. weighted_value n (n_fitted_target_models s) (map (\<lambda>m. m ! i) samples))
        [0..<length next_state]) = Inr W"
    and v: "v = (if np_any absorbing then mask_vec W absorbing else W)"
    by (simp add: next_q_def next_q_weighted_def split: sum.splits if_splits)
  have "length W = length next_state" using collect_Inr [OF W] by simp
  then show ?thesis using v i len np_any_nth [OF i]
    by (simp add: mask_vec_def not_absorbing_def)
qed

lemma ex_agent_DoubleDQN:
  "ex_agent DoubleDQN None =
     \<lparr>kind = DoubleDQN, batch_size = Some 1, n_approximators = 1, clip_reward = True,
      target_update_frequency = Some 2, max_no_op_actions = 0, no_op_action_value = 0,
      replay_memory = [], buffer_size = 1, buffer = [], n_updates = 0, episode_steps = 0,
      no_op_actions = None, approximator = [1, 2], target_approximator = Single [1, 2],
      policy = 0, gamma = 1 / 2, mdp_info = None, n_fitted_target_models = 0, calls = []\<rparr>"
  by (simp add: ex_agent_def ex_init_def ex_params_def dqn_init_def)

text \<open>
  Claim C1. \<open>DoubleDQN._next_q\<close> masks the prediction of the train approximator, takes
  its \<open>argmax\<close>, and returns the prediction of the target approximator at that action
  without masking it. For an absorbing sample the masked row is all zeros, its \<open>argmax\<close>
  is action 0, and the value returned is the target's Q-value of action 0: here 1, not
  0, so that the target of the regression is \<open>1 + 1/2 * 1\<close> instead of the reward 1, and
  \<open>fit\<close> on one absorbing transition of reward 1 moves the parameters \<open>[1, 2]\<close> to
  \<open>[5/2, 7/2]\<close> instead of \<open>[2, 3]\<close>. The base class returns 0 on the same input.
\<close>

theorem double_dqn_absorbing_not_masked:
  "next_q ex_collab (ex_agent DoubleDQN None) [[1]] [True] = Inr [1] \<and>
   bootstrap (gamma (ex_agent DoubleDQN None)) [1] [1] = [3 / 2] \<and>
   approximator (snd (fit ex_collab [ex_transition 1 True] 1 0 (ex_agent DoubleDQN None))) =
     [5 / 2, 7 / 2] \<and>
   next_q ex_collab (ex_agent DQN None) [[1]] [True] = Inr [0]"
  by (simp add: ex_agent_DoubleDQN ex_agent_DQN ex_collab_def next_q_def next_q_double_def
      next_q_dqn_def np_any_def np_max_axis1_def
      mask_rows_def not_absorbing_def np_argmax_axis1_def predict_actions_def predict_all_def
      bootstrap_def fit_def Let_def ex_transition_def np_clip_def update_target_def
      update_target_dqn_def)

subsection \<open>One fit step of the base class\<close>

lemma next_q_ignores:
  "next_q c (s\<lparr>replay_memory := m, calls := cs\<rparr>) ns ab = next_q c s ns ab"
  by (cases "kind s")
    (simp_all add: next_q_def next_q_dqn_def next_q_double_def next_q_averaged_def
      next_q_weighted_def Let_def cong: sum.case_cong option.case_cong if_cong)

lemma fit_one_unfold:
  "fit c d 1 r s =
     (case rm_get c (batch_size s) r (rm_add c d (replay_memory s)) of
        Inl e \<Rightarrow>
          (Inl e, s\<lparr>replay_memory := rm_add c d (replay_memory s),
                     calls := calls s @ [ReplayAdd, ReplayGet (batch_size s)]\<rparr>)
      | Inr batch \<Rightarrow>
          (case next_q c s (map t_next_state batch) (map t_absorbing batch) of
             Inl e \<Rightarrow>
               (Inl e, s\<lparr>replay_memory := rm_add c d (replay_memory s),
                          calls := calls s @ [ReplayAdd, ReplayGet (batch_size s)]\<rparr>)
           | Inr q_next \<Rightarrow>
               update_target
                 (s\<lparr>replay_memory := rm_add c d (replay_memory s),
                    approximator :=
                      regr_fit c (map t_state batch) (map t_action batch)
                        (bootstrap (gamma s)
                           (if clip_reward s then map (np_clip (- 1) 1) (map t_reward batch)
                            else map t_reward batch) q_next)
                        (approximator s),
                    calls := calls s @ [ReplayAdd, ReplayGet (batch_size s), ApproximatorFit],
                    n_updates := n_updates s + 1\<rparr>)))"
  proof -
  have "next_q c (s\<lparr>replay_memory := m, calls := cs\<rparr>) ns ab = next_q c s ns ab" for m cs ns ab
    by (rule next_q_ignores)
  then show ?thesis
    by (simp add: fit_def Let_def split: sum.splits)
qed


lemma update_target_dqn_fields:
  "approximator (snd (update_target_dqn s)) = approximator s"
  "n_updates (snd (update_target_dqn s)) = n_updates s"
  "kind (snd (update_target_dqn s)) = kind s"
  "target_update_frequency (snd (update_target_dqn s)) = target_update_frequency s"
  "batch_size (snd (update_target_dqn s)) = batch_size s"
  by (simp_all add: update_target_dqn_def split: option.splits model.splits)

lemma update_target_dqn_sync:
  "(calls (snd (update_target_dqn s)) = calls s @ [TargetSetWeights None] \<and>
    target_approximator (snd (update_target_dqn s)) = Single (approximator s) \<and>
    fst (update_target_dqn s) = Inr () \<and>
    (\<exists>f. target_update_frequency s = Some f \<and> f \<noteq> 0 \<and> n_updates s mod f = 0)) \<or>
   (calls (snd (update_target_dqn s)) = calls s \<and>
    target_approximator (snd (update_target_dqn s)) = target_approximator s \<and>
    (fst (update_target_dqn s) = Inr () \<longrightarrow>
       (\<exists>f. target_update_frequency s = Some f \<and> f \<noteq> 0 \<and> n_updates s mod f \<noteq> 0)))"
  by (simp add: update_target_dqn_def split: option.splits model.splits)

lemma update_target_base:
  "kind s = DQN \<or> kind s = DoubleDQN \<Longrightarrow> update_target s = update_target_dqn s"
  by (auto simp: update_target_def)

lemma np_max_axis1_length: "np_max_axis1 q = Inr v \<Longrightarrow> length v = length q"
  unfolding np_max_axis1_def using collect_Inr [of "map row_max q" v] by simp

lemma next_q_dqn_length:
  assumes "kind s = DQN" "next_q c s ns ab = Inr v" "length ab = length ns"
  shows "length v = length ns"
proof -
  from assms(1,2) have "np_max_axis1 (if np_any ab
      then mask_rows (predict_all c (target_approximator s) ns) ab
      else predict_all c (target_approximator s) ns) = Inr v"
    by (simp add: next_q_def next_q_dqn_def Let_def)
  from np_max_axis1_length [OF this] show ?thesis
    using assms(3) by (simp add: mask_rows_def predict_all_length split: if_splits)
qed

text \<open>
  Claim C2. A call \<open>fit(dataset, 1)\<close> on the base DQN asks the replay memory, after the
  dataset was added, for a minibatch of \<open>batch_size\<close>. When the memory returns a batch
  and \<open>_next_q(next_state, absorbing)\<close> returns \<open>q_next\<close>, the train approximator is fitted
  once on the states, the actions and the targets \<open>y = reward + gamma * q_next\<close>, where
  each reward is clipped to \<open>[-1, 1]\<close> exactly when \<open>clip_reward\<close> is set. The target
  approximator is never fitted: after the call it is what it was, or a copy of the
  parameters of the train approximator (the scheduled update).
\<close>

theorem fit_dqn_regression_target:
  assumes k: "kind s = DQN"
    and g: "rm_get c (batch_size s) r (rm_add c dataset (replay_memory s)) = Inr batch"
    and q: "next_q c s (map t_next_state batch) (map t_absorbing batch) = Inr q_next"
  shows "length q_next = length batch \<and>
         approximator (snd (fit c dataset 1 r s)) =
           regr_fit c (map t_state batch) (map t_action batch)
             (map2 (\<lambda>t qn. (if clip_reward s then min (max (t_reward t) (- 1)) 1 else t_reward t)
                              + gamma s * qn) batch q_next)
             (approximator s) \<and>
         (\<exists>sync. calls (snd (fit c dataset 1 r s)) =
                   calls s @ [ReplayAdd, ReplayGet (batch_size s), ApproximatorFit] @ sync \<and>
                 (sync = [] \<or> sync = [TargetSetWeights None])) \<and>
         (target_approximator (snd (fit c dataset 1 r s)) = target_approximator s \<or>
          target_approximator (snd (fit c dataset 1 r s)) =
            Single (approximator (snd (fit c dataset 1 r s))))"
proof -
  define y where "y = bootstrap (gamma s)
     (if clip_reward s then map (np_clip (- 1) 1) (map t_reward batch) else map t_reward batch)
     q_next"
  define t where "t = s\<lparr>replay_memory := rm_add c dataset (replay_memory s),
     approximator := regr_fit c (map t_state batch) (map t_action batch) y (approximator s),
     calls := calls s @ [ReplayAdd, ReplayGet (batch_size s), ApproximatorFit],
     n_updates := n_updates s + 1\<rparr>"
  have kt: "kind t = DQN \<or> kind t = DoubleDQN" using k by (simp add: t_def)
  have f: "fit c dataset 1 r s = update_target_dqn t"
    unfolding update_target_base [OF kt, symmetric]
    by (simp add: fit_one_unfold g q t_def y_def)
  have len: "length q_next = length batch"
    using next_q_dqn_length [OF k q] by simp
  have y: "y = map2 (\<lambda>t qn. (if clip_reward s then min (max (t_reward t) (- 1)) 1 else t_reward t)
                              + gamma s * qn) batch q_next"
    by (simp add: y_def bootstrap_def np_clip_def zip_map1 split_def)
  have t1: "approximator t = regr_fit c (map t_state batch) (map t_action batch) y (approximator s)"
    and t2: "calls t = calls s @ [ReplayAdd, ReplayGet (batch_size s), ApproximatorFit]"
    and t3: "target_approximator t = target_approximator s"
    by (simp_all add: t_def)
  have a: "approximator (snd (fit c dataset 1 r s)) =
      regr_fit c (map t_state batch) (map t_action batch) y (approximator s)"
    unfolding f by (simp add: update_target_dqn_fields t1)
  have b: "\<exists>sync. calls (snd (fit c dataset 1 r s)) =
                   calls s @ [ReplayAdd, ReplayGet (batch_size s), ApproximatorFit] @ sync \<and>
                 (sync = [] \<or> sync = [TargetSetWeights None])"
    unfolding f using update_target_dqn_sync [of t] unfolding t2 by auto
  have c: "target_approximator (snd (fit c dataset 1 r s)) = target_approximator s \<or>
          target_approximator (snd (fit c dataset 1 r s)) =
            Single (approximator (snd (fit c dataset 1 r s)))"
    unfolding f update_target_dqn_fields using update_target_dqn_sync [of t] unfolding t3 by blast
  show ?thesis using len a b c unfolding y by blast
qed


theorem fit_dqn_regression_target_witness:
  "kind (ex_agent DQN None) = DQN \<and>
   rm_get ex_collab (batch_size (ex_agent DQN None)) 0
     (rm_add ex_collab [ex_transition 5 False] (replay_memory (ex_agent DQN None))) =
     Inr [ex_transition 5 False] \<and>
   next_q ex_collab (ex_agent DQN None) (map t_next_state [ex_transition 5 False])
     (map t_absorbing [ex_transition 5 False]) = Inr [2] \<and>
   approximator (snd (fit ex_collab [ex_transition 5 False] 1 0 (ex_agent DQN None))) = [3, 4]"
proof -
  have h1: "kind (ex_agent DQN None) = DQN" by (simp add: ex_agent_DQN)
  have h2: "rm_get ex_collab (batch_size (ex_agent DQN None)) 0
     (rm_add ex_collab [ex_transition 5 False] (replay_memory (ex_agent DQN None))) =
     Inr [ex_transition 5 False]"
    by (simp add: ex_agent_DQN ex_collab_def)
  have h3: "next_q ex_collab (ex_agent DQN None) (map t_next_state [ex_transition 5 False])
     (map t_absorbing [ex_transition 5 False]) = Inr [2]"
    by (simp add: ex_agent_DQN ex_collab_def ex_transition_def next_q_def next_q_dqn_def
        predict_all_def np_any_def np_max_axis1_def)
  show ?thesis
    using h1 h2 h3 fit_dqn_regression_target [OF h1 h2 h3]
    by (simp add: ex_agent_DQN ex_collab_def ex_transition_def)
qed

subsection \<open>The update schedule of the base class\<close>

lemma fits_Cons_eq:
  "fits c ((d, n, r) # rest) s = (res # ress, s'') \<longleftrightarrow>
     (\<exists>s'. fit c d n r s = (res, s') \<and> fits c rest s' = (ress, s''))"
  by (auto split: prod.splits)

lemma fit_dqn_step:
  assumes kb: "kind s = DQN \<or> kind s = DoubleDQN" and ok: "fit c d 1 r s = (Inr (), s')"
  shows "n_updates s' = n_updates s + 1" "kind s' = kind s"
    "target_update_frequency s' = target_update_frequency s" "batch_size s' = batch_size s"
    "\<exists>f. target_update_frequency s = Some f \<and> f \<noteq> 0 \<and>
       (if (n_updates s + 1) mod f = 0
        then calls s' = calls s @ [ReplayAdd, ReplayGet (batch_size s), ApproximatorFit,
                                    TargetSetWeights None] \<and>
             target_approximator s' = Single (approximator s')
        else calls s' = calls s @ [ReplayAdd, ReplayGet (batch_size s), ApproximatorFit] \<and>
             target_approximator s' = target_approximator s)"
proof -
  from ok obtain batch where g: "rm_get c (batch_size s) r (rm_add c d (replay_memory s)) = Inr batch"
    by (simp add: fit_one_unfold split: sum.splits)
  from ok g obtain q_next where q: "next_q c s (map t_next_state batch) (map t_absorbing batch) = Inr q_next"
    by (simp add: fit_one_unfold split: sum.splits)
  define t where "t = s\<lparr>replay_memory := rm_add c d (replay_memory s),
     approximator := regr_fit c (map t_state batch) (map t_action batch)
        (bootstrap (gamma s)
           (if clip_reward s then map (np_clip (- 1) 1) (map t_reward batch)
            else map t_reward batch) q_next) (approximator s),
     calls := calls s @ [ReplayAdd, ReplayGet (batch_size s), ApproximatorFit],
     n_updates := n_updates s + 1\<rparr>"
  have kt: "kind t = DQN \<or> kind t = DoubleDQN" using kb by (simp add: t_def)
  have "fit c d 1 r s = update_target_dqn t"
    unfolding update_target_base [OF kt, symmetric]
    by (simp add: fit_one_unfold g q t_def)
  with ok have u: "update_target_dqn t = (Inr (), s')" by simp
  then have s': "s' = snd (update_target_dqn t)" and r: "fst (update_target_dqn t) = Inr ()"
    by simp_all
  show "n_updates s' = n_updates s + 1" "kind s' = kind s"
    "target_update_frequency s' = target_update_frequency s" "batch_size s' = batch_size s"
    unfolding s' by (simp_all add: update_target_dqn_fields t_def)
  have t2: "calls t = calls s @ [ReplayAdd, ReplayGet (batch_size s), ApproximatorFit]"
    and t3: "target_approximator t = target_approximator s"
    and t4: "n_updates t = n_updates s + 1"
    and t5: "target_update_frequency t = target_update_frequency s"
    by (simp_all add: t_def)
  have t6: "approximator s' = approximator t"
    unfolding s' by (simp add: update_target_dqn_fields)
  show "\<exists>f. target_update_frequency s = Some f \<and> f \<noteq> 0 \<and>
       (if (n_updates s + 1) mod f = 0
        then calls s' = calls s @ [ReplayAdd, ReplayGet (batch_size s), ApproximatorFit,
                                    TargetSetWeights None] \<and>
             target_approximator s' = Single (approximator s')
        else calls s' = calls s @ [ReplayAdd, ReplayGet (batch_size s), ApproximatorFit] \<and>
             target_approximator s' = target_approximator s)"
    using update_target_dqn_sync [of t] r unfolding s' [symmetric] t2 t3 t4 t5 t6 by auto
qed

lemma syncs_append: "syncs (xs @ ys) = syncs xs @ syncs ys"
  by (induction xs rule: syncs.induct) simp_all

lemmas ex_eval =
  fit_def Let_def ex_collab_def ex_transition_def next_q_def next_q_dqn_def predict_all_def
  np_any_def np_max_axis1_def mask_rows_def not_absorbing_def bootstrap_def np_clip_def
  update_target_def update_target_dqn_def


text \<open>
  Claim C4, amended. On the base DQN a call \<open>fit(dataset, 0)\<close> leaves \<open>n_updates\<close> and the
  target approximator unchanged and issues no target update. A call \<open>fit(dataset, 1)\<close>
  that returns increases \<open>n_updates\<close> by exactly 1, and it copies the train parameters
  into the target approximator (once) if and only if the resulting \<open>n_updates\<close> is a
  multiple of \<open>target_update_frequency\<close>. With \<open>target_update_frequency = 2\<close> and five
  successive returning calls \<open>fit(..., 1)\<close> from \<open>n_updates = 0\<close>, the target updates are
  issued after the fits number 2 and 4 and nowhere else.
\<close>

theorem base_update_schedule:
  assumes k: "kind s = DQN"
  shows "n_updates (snd (fit c d 0 r s)) = n_updates s \<and>
         syncs (calls (snd (fit c d 0 r s))) = syncs (calls s) \<and>
         target_approximator (snd (fit c d 0 r s)) = target_approximator s \<and>
         (fit c d 1 r s = (Inr (), s') \<longrightarrow>
            n_updates s' = n_updates s + 1 \<and>
            (\<exists>f. target_update_frequency s = Some f \<and> f \<noteq> 0 \<and>
                 syncs (calls s') =
                   syncs (calls s) @ (if n_updates s' mod f = 0 then [None] else []) \<and>
                 target_approximator s' =
                   (if n_updates s' mod f = 0 then Single (approximator s')
                    else target_approximator s))) \<and>
         (target_update_frequency s = Some 2 \<and> n_updates s = 0 \<and>
          fits c [(d1, 1, r1), (d2, 1, r2), (d3, 1, r3), (d4, 1, r4), (d5, 1, r5)] s =
            ([Inr (), Inr (), Inr (), Inr (), Inr ()], s5) \<longrightarrow>
            n_updates s5 = 5 \<and>
            calls s5 = calls s @
              [ReplayAdd, ReplayGet (batch_size s), ApproximatorFit,
               ReplayAdd, ReplayGet (batch_size s), ApproximatorFit, TargetSetWeights None,
               ReplayAdd, ReplayGet (batch_size s), ApproximatorFit,
               ReplayAdd, ReplayGet (batch_size s), ApproximatorFit, TargetSetWeights None,
               ReplayAdd, ReplayGet (batch_size s), ApproximatorFit])"
proof -
  have z: "n_updates (snd (fit c d 0 r s)) = n_updates s \<and>
         syncs (calls (snd (fit c d 0 r s))) = syncs (calls s) \<and>
         target_approximator (snd (fit c d 0 r s)) = target_approximator s"
    by (simp add: fit_def Let_def syncs_append)
  have one: "n_updates s' = n_updates s + 1 \<and>
            (\<exists>f. target_update_frequency s = Some f \<and> f \<noteq> 0 \<and>
                 syncs (calls s') =
                   syncs (calls s) @ (if n_updates s' mod f = 0 then [None] else []) \<and>
                 target_approximator s' =
                   (if n_updates s' mod f = 0 then Single (approximator s')
                    else target_approximator s))"
    if ok: "fit c d 1 r s = (Inr (), s')"
  proof -
    have kb: "kind s = DQN \<or> kind s = DoubleDQN" using k by simp
    from fit_dqn_step(5) [OF kb ok] fit_dqn_step(1) [OF kb ok]
    show ?thesis by (auto simp: syncs_append split: if_splits)
  qed
  have five: "n_updates s5 = 5 \<and>
            calls s5 = calls s @
              [ReplayAdd, ReplayGet (batch_size s), ApproximatorFit,
               ReplayAdd, ReplayGet (batch_size s), ApproximatorFit, TargetSetWeights None,
               ReplayAdd, ReplayGet (batch_size s), ApproximatorFit,
               ReplayAdd, ReplayGet (batch_size s), ApproximatorFit, TargetSetWeights None,
               ReplayAdd, ReplayGet (batch_size s), ApproximatorFit]"
    if f2: "target_update_frequency s = Some 2" and n0: "n_updates s = 0"
      and run: "fits c [(d1, 1, r1), (d2, 1, r2), (d3, 1, r3), (d4, 1, r4), (d5, 1, r5)] s =
            ([Inr (), Inr (), Inr (), Inr (), Inr ()], s5)"
  proof -
    from run obtain t1 t2 t3 t4 where
      a1: "fit c d1 1 r1 s = (Inr (), t1)" and a2: "fit c d2 1 r2 t1 = (Inr (), t2)" and
      a3: "fit c d3 1 r3 t2 = (Inr (), t3)" and a4: "fit c d4 1 r4 t3 = (Inr (), t4)" and
      a5: "fit c d5 1 r5 t4 = (Inr (), s5)"
      unfolding fits_Cons_eq by auto
    have k0: "kind s = DQN \<or> kind s = DoubleDQN" using k by simp
    note b1 = fit_dqn_step [OF k0 a1]
    have k1: "kind t1 = DQN \<or> kind t1 = DoubleDQN" using k0 b1(2) by simp
    note b2 = fit_dqn_step [OF k1 a2]
    have k2: "kind t2 = DQN \<or> kind t2 = DoubleDQN" using k1 b2(2) by simp
    note b3 = fit_dqn_step [OF k2 a3]
    have k3: "kind t3 = DQN \<or> kind t3 = DoubleDQN" using k2 b3(2) by simp
    note b4 = fit_dqn_step [OF k3 a4]
    have k4: "kind t4 = DQN \<or> kind t4 = DoubleDQN" using k3 b4(2) by simp
    note b5 = fit_dqn_step [OF k4 a5]
    have c1: "n_updates t1 = 1" "target_update_frequency t1 = Some 2" "batch_size t1 = batch_size s"
      "calls t1 = calls s @ [ReplayAdd, ReplayGet (batch_size s), ApproximatorFit]"
      using b1 f2 n0 by auto
    have c2: "n_updates t2 = 2" "target_update_frequency t2 = Some 2" "batch_size t2 = batch_size s"
      "calls t2 = calls t1 @ [ReplayAdd, ReplayGet (batch_size s), ApproximatorFit, TargetSetWeights None]"
      using b2 c1(1,2,3) by auto
    have c3: "n_updates t3 = 3" "target_update_frequency t3 = Some 2" "batch_size t3 = batch_size s"
      "calls t3 = calls t2 @ [ReplayAdd, ReplayGet (batch_size s), ApproximatorFit]"
      using b3 c2(1,2,3) by auto
    have c4: "n_updates t4 = 4" "target_update_frequency t4 = Some 2" "batch_size t4 = batch_size s"
      "calls t4 = calls t3 @ [ReplayAdd, ReplayGet (batch_size s), ApproximatorFit, TargetSetWeights None]"
      using b4 c3(1,2,3) by auto
    have c5: "n_updates s5 = 5"
      "calls s5 = calls t4 @ [ReplayAdd, ReplayGet (batch_size s), ApproximatorFit]"
      using b5 c4(1,2,3) by auto
    show ?thesis using c5 by (simp add: c4(4) c3(4) c2(4) c1(4))
  qed
  show ?thesis using z one five by blast
qed


theorem base_update_schedule_witness:
  "kind (ex_agent DQN None) = DQN \<and>
   fit ex_collab [ex_transition 5 False] 1 0 (ex_agent DQN None) =
     (Inr (), snd (fit ex_collab [ex_transition 5 False] 1 0 (ex_agent DQN None))) \<and>
   target_update_frequency (ex_agent DQN None) = Some 2 \<and> n_updates (ex_agent DQN None) = 0 \<and>
   fits ex_collab [([ex_transition 5 False], 1, 0), ([], 1, 0), ([], 1, 0), ([], 1, 0), ([], 1, 0)]
       (ex_agent DQN None) =
     ([Inr (), Inr (), Inr (), Inr (), Inr ()],
      snd (fits ex_collab
             [([ex_transition 5 False], 1, 0), ([], 1, 0), ([], 1, 0), ([], 1, 0), ([], 1, 0)]
             (ex_agent DQN None))) \<and>
   n_updates (snd (fit ex_collab [ex_transition 5 False] 1 0 (ex_agent DQN None))) = 1 \<and>
   syncs (calls (snd (fits ex_collab
             [([ex_transition 5 False], 1, 0), ([], 1, 0), ([], 1, 0), ([], 1, 0), ([], 1, 0)]
             (ex_agent DQN None)))) = [None, None]"
proof -
  have h1: "kind (ex_agent DQN None) = DQN" by (simp add: ex_agent_DQN)
  have h2: "fit ex_collab [ex_transition 5 False] 1 0 (ex_agent DQN None) =
     (Inr (), snd (fit ex_collab [ex_transition 5 False] 1 0 (ex_agent DQN None)))"
    by (simp add: ex_agent_DQN ex_eval)
  have h3: "target_update_frequency (ex_agent DQN None) = Some 2 \<and> n_updates (ex_agent DQN None) = 0"
    by (simp add: ex_agent_DQN)
  have h4: "fits ex_collab [([ex_transition 5 False], 1, 0), ([], 1, 0), ([], 1, 0), ([], 1, 0), ([], 1, 0)]
       (ex_agent DQN None) =
     ([Inr (), Inr (), Inr (), Inr (), Inr ()],
      snd (fits ex_collab
             [([ex_transition 5 False], 1, 0), ([], 1, 0), ([], 1, 0), ([], 1, 0), ([], 1, 0)]
             (ex_agent DQN None)))"
    by (simp add: ex_agent_DQN ex_eval)
  show ?thesis
    using h1 h2 h3 h4
      base_update_schedule [OF h1, of ex_collab "[ex_transition 5 False]" 0
        "snd (fit ex_collab [ex_transition 5 False] 1 0 (ex_agent DQN None))"
        "[ex_transition 5 False]" 0 "[]" 0 "[]" 0 "[]" 0 "[]" 0
        "snd (fits ex_collab
             [([ex_transition 5 False], 1, 0), ([], 1, 0), ([], 1, 0), ([], 1, 0), ([], 1, 0)]
             (ex_agent DQN None))"]
    by (simp add: ex_agent_DQN)
qed

text \<open>
  The claim as stated fails on a call \<open>fit(dataset, 0)\<close>: on a fresh agent with
  \<open>target_update_frequency = 2\<close> the resulting \<open>n_updates\<close> is 0, a multiple of 2, and no
  target update is issued.
\<close>

theorem fit_zero_never_syncs:
  "target_update_frequency (snd (fit ex_collab [] 0 0 (ex_agent DQN None))) = Some 2 \<and>
   \<not> (syncs (calls (snd (fit ex_collab [] 0 0 (ex_agent DQN None)))) \<noteq>
         syncs (calls (ex_agent DQN None)) \<longleftrightarrow>
       n_updates (snd (fit ex_collab [] 0 0 (ex_agent DQN None))) mod 2 = 0)"
  by (simp add: ex_agent_DQN ex_eval)

subsection \<open>Arithmetic of the schedule\<close>

lemma div_succ_int:
  fixes u f :: int
  assumes f: "0 < f"
  shows "(u + 1) mod f = 0 \<Longrightarrow> (u + 1) div f = u div f + 1"
    and "(u + 1) mod f \<noteq> 0 \<Longrightarrow> (u + 1) div f = u div f"
proof -
  define q m where "q = u div f" and "m = u mod f"
  have u: "u = f * q + m" and m: "0 \<le> m" "m < f"
    using f by (simp_all add: q_def m_def)
  show "(u + 1) div f = u div f + 1" if z: "(u + 1) mod f = 0"
  proof (cases "m + 1 < f")
    case True
    have "(u + 1) mod f = m + 1"
      by (rule int_mod_pos_eq [of _ _ q]) (use u m True in auto)
    with z m show ?thesis by simp
  next
    case False
    with m have "m + 1 = f" by simp
    then have "u + 1 = f * (q + 1) + 0" using u by (simp add: algebra_simps)
    then have "(u + 1) div f = q + 1"
      by (rule int_div_pos_eq) (use f in auto)
    then show ?thesis by (simp add: q_def)
  qed
  show "(u + 1) div f = u div f" if nz: "(u + 1) mod f \<noteq> 0"
  proof (cases "m + 1 < f")
    case True
    have "(u + 1) div f = q"
      by (rule int_div_pos_eq [of _ _ _ "m + 1"]) (use u m True in auto)
    then show ?thesis by (simp add: q_def)
  next
    case False
    with m have "m + 1 = f" by simp
    then have "u + 1 = f * (q + 1)" using u by (simp add: algebra_simps)
    then have "(u + 1) mod f = 0" by simp
    with nz show ?thesis by simp
  qed
qed

lemma inj_on_mod_window: "inj_on (\<lambda>k. k mod N) {a..<a + N}" for N :: nat
proof (rule inj_onI)
  fix x y assume x: "x \<in> {a..<a + N}" and y: "y \<in> {a..<a + N}" and e: "x mod N = y mod N"
  have aux: "p = q" if "p mod N = q mod N" "q \<le> p" "p < q + N" for p q :: nat
  proof -
    from that(1,2) obtain s where s: "p = q + N * s" by (rule mod_eq_nat1E)
    with that(3) have "N * s < N" by simp
    then have "s = 0" by (cases s) auto
    with s show ?thesis by simp
  qed
  show "x = y"
  proof (cases "y \<le> x")
    case True
    then show ?thesis using aux [of x y] e x y by auto
  next
    case False
    then show ?thesis using aux [of y x] e x y by auto
  qed
qed

lemma mod_window_cover:
  fixes N :: nat
  assumes "0 < N"
  shows "distinct (map (\<lambda>k. k mod N) [a..<a + N])"
    and "set (map (\<lambda>k. k mod N) [a..<a + N]) = {0..<N}"
proof -
  show d: "distinct (map (\<lambda>k. k mod N) [a..<a + N])"
    using inj_on_mod_window [of N a] by (simp add: distinct_map)
  have sub: "set (map (\<lambda>k. k mod N) [a..<a + N]) \<subseteq> {0..<N}"
    using assms by auto
  have "card (set (map (\<lambda>k. k mod N) [a..<a + N])) = N"
    using d distinct_card [of "map (\<lambda>k. k mod N) [a..<a + N]"] by simp
  then show "set (map (\<lambda>k. k mod N) [a..<a + N]) = {0..<N}"
    using sub by (intro card_subset_eq) auto
qed


subsection \<open>One fit step of the averaging classes\<close>

lemma update_target_averaged_fields:
  "approximator (snd (update_target_averaged s)) = approximator s"
  "n_updates (snd (update_target_averaged s)) = n_updates s"
  "kind (snd (update_target_averaged s)) = kind s"
  "target_update_frequency (snd (update_target_averaged s)) = target_update_frequency s"
  "n_approximators (snd (update_target_averaged s)) = n_approximators s"
  by (simp_all add: update_target_averaged_def Let_def split: option.splits model.splits)

lemma update_target_averaged_any:
  "(calls (snd (update_target_averaged t)) = calls t \<and>
    target_approximator (snd (update_target_averaged t)) = target_approximator t \<and>
    n_fitted_target_models (snd (update_target_averaged t)) = n_fitted_target_models t) \<or>
   (\<exists>idx ws. target_approximator t = Ensemble ws \<and> idx < length ws \<and>
      calls (snd (update_target_averaged t)) = calls t @ [TargetSetWeights (Some idx)] \<and>
      target_approximator (snd (update_target_averaged t)) = Ensemble (ws[idx := approximator t]) \<and>
      n_fitted_target_models (snd (update_target_averaged t)) =
        (if n_fitted_target_models t < n_approximators t then n_fitted_target_models t + 1
         else n_fitted_target_models t))"
  by (simp add: update_target_averaged_def Let_def split: option.splits model.splits)

lemma update_target_averaged_scheduled:
  assumes "target_update_frequency t = Some f" "f \<noteq> 0" "n_updates t mod f = 0"
    "0 < n_approximators t" "target_approximator t = Ensemble ws"
    "length ws = n_approximators t"
  shows "fst (update_target_averaged t) = Inr ()"
    "calls (snd (update_target_averaged t)) =
       calls t @ [TargetSetWeights (Some (nat ((n_updates t div f) mod int (n_approximators t))))]"
    "target_approximator (snd (update_target_averaged t)) =
       Ensemble (ws[nat ((n_updates t div f) mod int (n_approximators t)) := approximator t])"
    "n_fitted_target_models (snd (update_target_averaged t)) =
        (if n_fitted_target_models t < n_approximators t then n_fitted_target_models t + 1
         else n_fitted_target_models t)"
proof -
  have "nat ((n_updates t div f) mod int (n_approximators t)) < length ws"
    using assms(4,6) by (simp add: nat_less_iff)
  then show "fst (update_target_averaged t) = Inr ()"
    "calls (snd (update_target_averaged t)) =
       calls t @ [TargetSetWeights (Some (nat ((n_updates t div f) mod int (n_approximators t))))]"
    "target_approximator (snd (update_target_averaged t)) =
       Ensemble (ws[nat ((n_updates t div f) mod int (n_approximators t)) := approximator t])"
    "n_fitted_target_models (snd (update_target_averaged t)) =
        (if n_fitted_target_models t < n_approximators t then n_fitted_target_models t + 1
         else n_fitted_target_models t)"
    using assms by (simp_all add: update_target_averaged_def Let_def)
qed

lemma update_target_averaged_idle:
  assumes "target_update_frequency t = Some f" "f \<noteq> 0" "n_updates t mod f \<noteq> 0"
  shows "update_target_averaged t = (Inr (), t)"
  using assms by (simp add: update_target_averaged_def)

lemma update_target_avg:
  "kind s = AveragedDQN \<or> kind s = WeightedDQN \<Longrightarrow> update_target s = update_target_averaged s"
  by (auto simp: update_target_def)

lemma fit_reaches_update:
  obtains (stopped)
      "n_updates (snd (fit c d n r s)) = n_updates s"
      "syncs (calls (snd (fit c d n r s))) = syncs (calls s)"
      "target_approximator (snd (fit c d n r s)) = target_approximator s"
      "n_fitted_target_models (snd (fit c d n r s)) = n_fitted_target_models s"
      "kind (snd (fit c d n r s)) = kind s"
      "target_update_frequency (snd (fit c d n r s)) = target_update_frequency s"
      "n_approximators (snd (fit c d n r s)) = n_approximators s"
  | (updated) t where
      "fit c d n r s = update_target t"
      "n_updates t = n_updates s + 1"
      "syncs (calls t) = syncs (calls s)"
      "target_approximator t = target_approximator s"
      "n_fitted_target_models t = n_fitted_target_models s"
      "kind t = kind s"
      "target_update_frequency t = target_update_frequency s"
      "n_approximators t = n_approximators s"
proof (cases "n = 1")
  case False
  then show ?thesis by (intro stopped) (simp_all add: fit_def Let_def syncs_append)
next
  case True
  show ?thesis
  proof (cases "rm_get c (batch_size s) r (rm_add c d (replay_memory s))")
    case (Inl e)
    then show ?thesis using True
      by (intro stopped) (simp_all add: fit_one_unfold syncs_append)
  next
    case (Inr batch)
    show ?thesis
    proof (cases "next_q c s (map t_next_state batch) (map t_absorbing batch)")
      case (Inl e)
      then show ?thesis using True Inr
        by (intro stopped) (simp_all add: fit_one_unfold syncs_append)
    next
      case q: (Inr q_next)
      show ?thesis
        by (rule updated [of "s\<lparr>replay_memory := rm_add c d (replay_memory s),
           approximator := regr_fit c (map t_state batch) (map t_action batch)
              (bootstrap (gamma s)
                 (if clip_reward s then map (np_clip (- 1) 1) (map t_reward batch)
                  else map t_reward batch) q_next) (approximator s),
           calls := calls s @ [ReplayAdd, ReplayGet (batch_size s), ApproximatorFit],
           n_updates := n_updates s + 1\<rparr>"])
          (simp_all add: True fit_one_unfold Inr q syncs_append)
    qed
  qed
qed


lemma fit_avg_nfitted:
  assumes k: "kind s = AveragedDQN \<or> kind s = WeightedDQN"
  shows "kind (snd (fit c d n r s)) = kind s"
    and "n_approximators (snd (fit c d n r s)) = n_approximators s"
    and "(syncs (calls (snd (fit c d n r s))) = syncs (calls s) \<and>
          n_fitted_target_models (snd (fit c d n r s)) = n_fitted_target_models s) \<or>
         (\<exists>idx. syncs (calls (snd (fit c d n r s))) = syncs (calls s) @ [Some idx] \<and>
            n_fitted_target_models (snd (fit c d n r s)) =
              (if n_fitted_target_models s < n_approximators s
               then n_fitted_target_models s + 1 else n_fitted_target_models s))"
proof -
  show "kind (snd (fit c d n r s)) = kind s"
  proof (cases rule: fit_reaches_update [of c d n r s])
    case stopped
    then show ?thesis by simp
  next
    case (updated t)
    then show ?thesis using k
      by (simp add: update_target_avg update_target_averaged_fields)
  qed
  show "n_approximators (snd (fit c d n r s)) = n_approximators s"
  proof (cases rule: fit_reaches_update [of c d n r s])
    case stopped
    then show ?thesis by simp
  next
    case (updated t)
    then show ?thesis using k
      by (simp add: update_target_avg update_target_averaged_fields)
  qed
  show "(syncs (calls (snd (fit c d n r s))) = syncs (calls s) \<and>
          n_fitted_target_models (snd (fit c d n r s)) = n_fitted_target_models s) \<or>
         (\<exists>idx. syncs (calls (snd (fit c d n r s))) = syncs (calls s) @ [Some idx] \<and>
            n_fitted_target_models (snd (fit c d n r s)) =
              (if n_fitted_target_models s < n_approximators s
               then n_fitted_target_models s + 1 else n_fitted_target_models s))"
  proof (cases rule: fit_reaches_update [of c d n r s])
    case stopped
    then show ?thesis by simp
  next
    case (updated t)
    have f: "fit c d n r s = update_target_averaged t"
      using updated(1,6) k by (simp add: update_target_avg)
    from update_target_averaged_any [of t] show ?thesis
      unfolding f using updated(3,5,8) by (auto simp: syncs_append)
  qed
qed

lemma snd_fits_Cons:
  "snd (fits c ((d, n, r) # rest) s) = snd (fits c rest (snd (fit c d n r s)))"
  by (simp split: prod.splits)

lemma fits_append:
  "snd (fits c (a @ b) s) = snd (fits c b (snd (fits c a s)))"
proof (induction a arbitrary: s)
  case Nil
  then show ?case by simp
next
  case (Cons x a)
  obtain d n r where x: "x = (d, n, r)" by (cases x) auto
  show ?case unfolding x append_Cons snd_fits_Cons by (rule Cons.IH)
qed

lemma fits_avg_nfitted:
  assumes "kind s = AveragedDQN \<or> kind s = WeightedDQN"
  shows "kind (snd (fits c cl s)) = kind s \<and>
         n_approximators (snd (fits c cl s)) = n_approximators s \<and>
         n_fitted_target_models s \<le> n_fitted_target_models (snd (fits c cl s)) \<and>
         (n_fitted_target_models s \<le> n_approximators s \<longrightarrow>
            n_fitted_target_models (snd (fits c cl s)) \<le> n_approximators s)"
  using assms
proof (induction cl arbitrary: s)
  case Nil
  then show ?case by simp
next
  case (Cons x cl)
  obtain d n r where x: "x = (d, n, r)" by (cases x) auto
  define s1 where "s1 = snd (fit c d n r s)"
  have s: "snd (fits c (x # cl) s) = snd (fits c cl s1)"
    by (simp add: x s1_def split: prod.splits)
  note st = fit_avg_nfitted [OF Cons.prems, of c d n r, folded s1_def]
  have k1: "kind s1 = AveragedDQN \<or> kind s1 = WeightedDQN"
    using st(1) Cons.prems by simp
  from Cons.IH [OF k1] st show ?case
    unfolding s by (auto split: if_splits)
qed

lemma ex_agent_AveragedDQN:
  "ex_agent AveragedDQN (Some 2) =
     \<lparr>kind = AveragedDQN, batch_size = Some 1, n_approximators = 2, clip_reward = True,
      target_update_frequency = Some 2, max_no_op_actions = 0, no_op_action_value = 0,
      replay_memory = [], buffer_size = 1, buffer = [], n_updates = 0, episode_steps = 0,
      no_op_actions = None, approximator = [1, 2], target_approximator = Ensemble [[1, 2], [1, 2]],
      policy = 0, gamma = 1 / 2, mdp_info = None, n_fitted_target_models = 1, calls = []\<rparr>"
  by (simp add: ex_agent_def ex_init_def ex_params_def dqn_init_def numeral_2_eq_2)

lemmas ex_eval_avg =
  next_q_averaged_def predict_slots_def predict_idx_def np_mean_axis0_def mean_rows_def
  update_target_averaged_def

lemma ex_avg_after_two:
  "snd (fits ex_collab ex_run2 (ex_agent AveragedDQN (Some 2))) =
     \<lparr>kind = AveragedDQN, batch_size = Some 1, n_approximators = 2, clip_reward = True,
      target_update_frequency = Some 2, max_no_op_actions = 0, no_op_action_value = 0,
      replay_memory = [ex_transition 5 False], buffer_size = 1, buffer = [], n_updates = 2,
      episode_steps = 0, no_op_actions = None, approximator = [5, 6],
      target_approximator = Ensemble [[1, 2], [5, 6]],
      policy = 0, gamma = 1 / 2, mdp_info = None, n_fitted_target_models = 2,
      calls = [ReplayAdd, ReplayGet (Some 1), ApproximatorFit, ReplayAdd, ReplayGet (Some 1),
               ApproximatorFit, TargetSetWeights (Some 1)]\<rparr>"
  by (simp add: ex_run2_def ex_agent_AveragedDQN ex_eval ex_eval_avg)

text \<open>
  Claim C7. On \<open>AveragedDQN\<close> and \<open>WeightedDQN\<close>, \<open>n_fitted_target_models\<close> is 1 after the
  constructor. A call of \<open>fit\<close> issues at most one target update; it adds exactly 1 to
  the counter when it issues one and the counter is below \<open>n_approximators\<close>, and
  leaves the counter unchanged otherwise. So over any sequence of \<open>fit\<close> calls (any
  datasets, any \<open>n_iterations\<close>, calls that raise included) the counter never decreases,
  a counter that is at most \<open>n_approximators\<close> stays at most \<open>n_approximators\<close>, and a
  counter that has reached \<open>n_approximators\<close> stays there.
\<close>

theorem n_fitted_target_models_capped:
  assumes k: "kind s = AveragedDQN \<or> kind s = WeightedDQN"
  shows "((k0 = AveragedDQN \<or> k0 = WeightedDQN) \<and> dqn_init k0 prm w0 pol g m0 = Inr s0 \<longrightarrow>
            n_fitted_target_models s0 = 1) \<and>
         n_fitted_target_models (snd (fit c d n r s)) =
           (if syncs (calls (snd (fit c d n r s))) \<noteq> syncs (calls s) \<and>
               n_fitted_target_models s < n_approximators s
            then n_fitted_target_models s + 1 else n_fitted_target_models s) \<and>
         length (syncs (calls (snd (fit c d n r s)))) \<le> length (syncs (calls s)) + 1 \<and>
         n_fitted_target_models s \<le> n_fitted_target_models (snd (fits c cl s)) \<and>
         n_fitted_target_models (snd (fits c cl s)) \<le>
           n_fitted_target_models (snd (fits c (cl @ cl') s)) \<and>
         (n_fitted_target_models s \<le> n_approximators s \<longrightarrow>
            n_fitted_target_models (snd (fits c cl s)) \<le> n_approximators s) \<and>
         (n_fitted_target_models s = n_approximators s \<longrightarrow>
            n_fitted_target_models (snd (fits c cl s)) = n_approximators s)"
proof -
  have a: "n_fitted_target_models s0 = 1"
    if "k0 = AveragedDQN \<or> k0 = WeightedDQN" "dqn_init k0 prm w0 pol g m0 = Inr s0"
    using that by (auto simp: dqn_init_def Let_def split: model.splits if_splits)
  have b: "n_fitted_target_models (snd (fit c d n r s)) =
           (if syncs (calls (snd (fit c d n r s))) \<noteq> syncs (calls s) \<and>
               n_fitted_target_models s < n_approximators s
            then n_fitted_target_models s + 1 else n_fitted_target_models s) \<and>
         length (syncs (calls (snd (fit c d n r s)))) \<le> length (syncs (calls s)) + 1"
    using fit_avg_nfitted(3) [OF k, of c d n r] by auto
  note run = fits_avg_nfitted [OF k, of c cl]
  have k1: "kind (snd (fits c cl s)) = AveragedDQN \<or> kind (snd (fits c cl s)) = WeightedDQN"
    using run k by simp
  have m: "n_fitted_target_models (snd (fits c cl s)) \<le>
           n_fitted_target_models (snd (fits c (cl @ cl') s))"
    unfolding fits_append using fits_avg_nfitted [OF k1, of c cl'] by simp
  show ?thesis using a b run m by auto
qed


theorem n_fitted_target_models_capped_witness:
  "(kind (snd (fits ex_collab ex_run2 (ex_agent AveragedDQN (Some 2)))) = AveragedDQN \<or>
    kind (snd (fits ex_collab ex_run2 (ex_agent AveragedDQN (Some 2)))) = WeightedDQN) \<and>
   dqn_init AveragedDQN (ex_params\<lparr>p_n_approximators := Some 2\<rparr>) [1, 2] 0 (1 / 2) [] =
     Inr (ex_agent AveragedDQN (Some 2)) \<and>
   n_fitted_target_models (ex_agent AveragedDQN (Some 2)) = 1 \<and>
   n_fitted_target_models (snd (fits ex_collab ex_run2 (ex_agent AveragedDQN (Some 2)))) =
     n_approximators (snd (fits ex_collab ex_run2 (ex_agent AveragedDQN (Some 2)))) \<and>
   n_fitted_target_models
     (snd (fits ex_collab ex_run2 (snd (fits ex_collab ex_run2 (ex_agent AveragedDQN (Some 2)))))) = 2"
proof -
  have h1: "kind (snd (fits ex_collab ex_run2 (ex_agent AveragedDQN (Some 2)))) = AveragedDQN \<or>
    kind (snd (fits ex_collab ex_run2 (ex_agent AveragedDQN (Some 2)))) = WeightedDQN"
    by (simp add: ex_avg_after_two)
  have h2: "dqn_init AveragedDQN (ex_params\<lparr>p_n_approximators := Some 2\<rparr>) [1, 2] 0 (1 / 2) [] =
     Inr (ex_agent AveragedDQN (Some 2))"
    by (simp add: ex_agent_AveragedDQN) (simp add: ex_params_def dqn_init_def numeral_2_eq_2)
  show ?thesis
    using h1 h2
      n_fitted_target_models_capped [OF h1, of AveragedDQN "ex_params\<lparr>p_n_approximators := Some 2\<rparr>"
        "[1, 2]" 0 "1 / 2" "[]" "ex_agent AveragedDQN (Some 2)" ex_collab "[]" 1 0 ex_run2 "[]"]
    by (simp add: ex_avg_after_two)
qed

subsection \<open>The round-robin schedule of the averaging classes\<close>

lemma fit_avg_step:
  assumes k: "kind s = AveragedDQN \<or> kind s = WeightedDQN"
    and f: "target_update_frequency s = Some f" "0 < f"
    and N: "0 < n_approximators s"
    and ens: "target_approximator s = Ensemble ws" "length ws = n_approximators s"
  shows "kind (snd (fit c d n r s)) = kind s"
    and "target_update_frequency (snd (fit c d n r s)) = Some f"
    and "n_approximators (snd (fit c d n r s)) = n_approximators s"
    and "(n_updates (snd (fit c d n r s)) = n_updates s \<and>
          syncs (calls (snd (fit c d n r s))) = syncs (calls s) \<and>
          target_approximator (snd (fit c d n r s)) = Ensemble ws) \<or>
         (n_updates (snd (fit c d n r s)) = n_updates s + 1 \<and>
          (n_updates s + 1) mod f \<noteq> 0 \<and>
          syncs (calls (snd (fit c d n r s))) = syncs (calls s) \<and>
          target_approximator (snd (fit c d n r s)) = Ensemble ws) \<or>
         (n_updates (snd (fit c d n r s)) = n_updates s + 1 \<and>
          (n_updates s + 1) mod f = 0 \<and>
          syncs (calls (snd (fit c d n r s))) =
            syncs (calls s) @
              [Some (nat (((n_updates s + 1) div f) mod int (n_approximators s)))] \<and>
          target_approximator (snd (fit c d n r s)) =
            Ensemble (ws[nat (((n_updates s + 1) div f) mod int (n_approximators s)) :=
                           approximator (snd (fit c d n r s))]))"
proof -
  show "kind (snd (fit c d n r s)) = kind s" by (rule fit_avg_nfitted(1) [OF k])
  show "n_approximators (snd (fit c d n r s)) = n_approximators s"
    by (rule fit_avg_nfitted(2) [OF k])
  show "target_update_frequency (snd (fit c d n r s)) = Some f"
  proof (cases rule: fit_reaches_update [of c d n r s])
    case stopped
    then show ?thesis using f by simp
  next
    case (updated t)
    then show ?thesis using k f
      by (simp add: update_target_avg update_target_averaged_fields)
  qed
  show "(n_updates (snd (fit c d n r s)) = n_updates s \<and>
          syncs (calls (snd (fit c d n r s))) = syncs (calls s) \<and>
          target_approximator (snd (fit c d n r s)) = Ensemble ws) \<or>
         (n_updates (snd (fit c d n r s)) = n_updates s + 1 \<and>
          (n_updates s + 1) mod f \<noteq> 0 \<and>
          syncs (calls (snd (fit c d n r s))) = syncs (calls s) \<and>
          target_approximator (snd (fit c d n r s)) = Ensemble ws) \<or>
         (n_updates (snd (fit c d n r s)) = n_updates s + 1 \<and>
          (n_updates s + 1) mod f = 0 \<and>
          syncs (calls (snd (fit c d n r s))) =
            syncs (calls s) @
              [Some (nat (((n_updates s + 1) div f) mod int (n_approximators s)))] \<and>
          target_approximator (snd (fit c d n r s)) =
            Ensemble (ws[nat (((n_updates s + 1) div f) mod int (n_approximators s)) :=
                           approximator (snd (fit c d n r s))]))"
  proof (cases rule: fit_reaches_update [of c d n r s])
    case stopped
    then show ?thesis using ens by simp
  next
    case (updated t)
    have e: "fit c d n r s = update_target_averaged t"
      using updated(1,6) k by (simp add: update_target_avg)
    have tf: "target_update_frequency t = Some f" "f \<noteq> 0" using updated(7) f by simp_all
    show ?thesis
    proof (cases "(n_updates s + 1) mod f = 0")
      case True
      have sch: "n_updates t mod f = 0" using True updated(2) by simp
      have tN: "0 < n_approximators t" using N updated(8) by simp
      have te: "target_approximator t = Ensemble ws" "length ws = n_approximators t"
        using ens updated(4,8) by simp_all
      note u = update_target_averaged_scheduled [OF tf sch tN te]
      have "approximator (snd (fit c d n r s)) = approximator t"
        unfolding e by (simp add: update_target_averaged_fields)
      then show ?thesis
        unfolding e using u(2,3) updated(2,3,8) True
        by (simp add: update_target_averaged_fields syncs_append)
    next
      case False
      have "n_updates t mod f \<noteq> 0" using False updated(2) by simp
      from update_target_averaged_idle [OF tf this]
      show ?thesis unfolding e using updated(2,3,4) ens False by simp
    qed
  qed
qed

lemma nat_mod_int: "nat (int a mod int b) = a mod b"
  by (simp add: zmod_int [symmetric])

lemma fits_avg_schedule:
  assumes k: "kind s = AveragedDQN \<or> kind s = WeightedDQN"
    and f: "target_update_frequency s = Some f" "0 < f"
    and N: "0 < n_approximators s"
    and ens: "target_approximator s = Ensemble ws" "length ws = n_approximators s"
    and nn: "0 \<le> n_updates s"
    and inv: "syncs (calls s) =
       map (\<lambda>k. Some (k mod n_approximators s)) [1..<Suc (nat (n_updates s div f))]"
  shows "syncs (calls (snd (fits c cl s))) =
       map (\<lambda>k. Some (k mod n_approximators s))
         [1..<Suc (nat (n_updates (snd (fits c cl s)) div f))]"
  using assms
proof (induction cl arbitrary: s ws)
  case Nil
  then show ?case by simp
next
  case (Cons x cl)
  obtain d n r where x: "x = (d, n, r)" by (cases x) auto
  define s1 where "s1 = snd (fit c d n r s)"
  have sx: "snd (fits c (x # cl) s) = snd (fits c cl s1)"
    unfolding x snd_fits_Cons s1_def ..
  note st = fit_avg_step [OF Cons.prems(1-6), of c d n r, folded s1_def]
  have k1: "kind s1 = AveragedDQN \<or> kind s1 = WeightedDQN" using st(1) Cons.prems(1) by simp
  have N1: "0 < n_approximators s1" using st(3) Cons.prems(4) by simp
  obtain ws1 where ens1: "target_approximator s1 = Ensemble ws1" "length ws1 = n_approximators s1"
    using st(3,4) Cons.prems(6) by auto
  have nn1: "0 \<le> n_updates s1" using st(4) Cons.prems(7) by auto
  define K where "K = nat (n_updates s div f)"
  have Kint: "n_updates s div f = int K"
    using Cons.prems(3,7) by (simp add: K_def pos_imp_zdiv_nonneg_iff)
  have inv1: "syncs (calls s1) =
       map (\<lambda>k. Some (k mod n_approximators s1)) [1..<Suc (nat (n_updates s1 div f))]"
    using st(4)
  proof (elim disjE conjE)
    assume "n_updates s1 = n_updates s" "syncs (calls s1) = syncs (calls s)"
    then show ?thesis using Cons.prems(8) st(3) by simp
  next
    assume a: "n_updates s1 = n_updates s + 1" "(n_updates s + 1) mod f \<noteq> 0"
      "syncs (calls s1) = syncs (calls s)"
    have "(n_updates s + 1) div f = n_updates s div f"
      by (rule div_succ_int(2) [OF Cons.prems(3) a(2)])
    then show ?thesis using a Cons.prems(8) st(3) by simp
  next
    assume a: "n_updates s1 = n_updates s + 1" "(n_updates s + 1) mod f = 0"
      "syncs (calls s1) = syncs (calls s) @
              [Some (nat (((n_updates s + 1) div f) mod int (n_approximators s)))]"
    have d: "(n_updates s + 1) div f = int (Suc K)"
      using div_succ_int(1) [OF Cons.prems(3) a(2)] Kint by simp
    have "nat (((n_updates s + 1) div f) mod int (n_approximators s)) = Suc K mod n_approximators s"
      unfolding d by (rule nat_mod_int)
    then have e: "syncs (calls s1) =
        map (\<lambda>k. Some (k mod n_approximators s)) [1..<Suc K] @
          [Some (Suc K mod n_approximators s)]"
      using a(3) Cons.prems(8) unfolding K_def by simp
    have n1: "nat (n_updates s1 div f) = Suc K"
      unfolding a(1) d by (rule nat_int)
    have "map (\<lambda>k. Some (k mod n_approximators s)) [1..<Suc (Suc K)] =
        map (\<lambda>k. Some (k mod n_approximators s)) [1..<Suc K] @
          [Some (Suc K mod n_approximators s)]"
      by (simp del: upt_Suc add: upt_Suc_append)
    then show ?thesis unfolding n1 st(3) e by simp
  qed
  from Cons.IH [OF k1 st(2) Cons.prems(3) N1 ens1 nn1 inv1]
  show ?case unfolding sx st(3) .
qed


lemma window_of_schedule:
  fixes N :: nat
  assumes N: "0 < N" and j: "j + N \<le> K"
  shows "take N (drop j (map (\<lambda>k. Some (k mod N)) [1..<Suc K])) =
           map Some (map (\<lambda>k. k mod N) [Suc j..<Suc j + N])"
proof -
  have "drop j [1..<Suc K] = [Suc j..<Suc K]" by (simp add: drop_upt del: upt_Suc)
  moreover have "take N [Suc j..<Suc K] = [Suc j..<Suc j + N]"
    using j by (intro take_upt) simp
  ultimately show ?thesis
    by (simp add: take_map drop_map del: upt_Suc)
qed

lemma ex_avg_after_four:
  "snd (fits ex_collab (ex_run2 @ ex_run2) (ex_agent AveragedDQN (Some 2))) =
     \<lparr>kind = AveragedDQN, batch_size = Some 1, n_approximators = 2, clip_reward = True,
      target_update_frequency = Some 2, max_no_op_actions = 0, no_op_action_value = 0,
      replay_memory = [ex_transition 5 False, ex_transition 5 False], buffer_size = 1,
      buffer = [], n_updates = 4,
      episode_steps = 0, no_op_actions = None, approximator = [11, 12],
      target_approximator = Ensemble [[11, 12], [5, 6]],
      policy = 0, gamma = 1 / 2, mdp_info = None, n_fitted_target_models = 2,
      calls = [ReplayAdd, ReplayGet (Some 1), ApproximatorFit, ReplayAdd, ReplayGet (Some 1),
               ApproximatorFit, TargetSetWeights (Some 1),
               ReplayAdd, ReplayGet (Some 1), ApproximatorFit, ReplayAdd, ReplayGet (Some 1),
               ApproximatorFit, TargetSetWeights (Some 0)]\<rparr>"
  unfolding fits_append ex_avg_after_two
  by (simp add: ex_run2_def ex_eval ex_eval_avg numeral_2_eq_2)

text \<open>
  Claim C3, amended. Take an \<open>AveragedDQN\<close> or \<open>WeightedDQN\<close> agent with a positive
  \<open>target_update_frequency\<close> and an ensemble of \<open>N = n_approximators\<close> slots, \<open>N\<close> at least 1.
  A call of \<open>fit\<close> writes no slot, or exactly one slot of the ensemble with the
  parameters of the train approximator (never the whole model). From a fresh agent
  (\<open>n_updates = 0\<close>, no target update issued yet), after any sequence of \<open>fit\<close> calls, the
  target updates issued are those of the numbers \<open>k = 1, 2, ...\<close> up to
  \<open>n_updates div target_update_frequency\<close>, and update number \<open>k\<close> wrote slot
  \<open>k mod N\<close>: the first update writes slot 1 (slot 0 when \<open>N = 1\<close>), not slot 0. Any
  \<open>N\<close> consecutive updates write \<open>N\<close> distinct slots, that is every slot exactly once.
\<close>

theorem averaged_round_robin:
  assumes k: "kind s = AveragedDQN \<or> kind s = WeightedDQN"
    and f: "target_update_frequency s = Some f" "0 < f"
    and N: "0 < n_approximators s"
    and ens: "target_approximator s = Ensemble ws" "length ws = n_approximators s"
  shows "((syncs (calls (snd (fit c d n r s))) = syncs (calls s) \<and>
           target_approximator (snd (fit c d n r s)) = Ensemble ws) \<or>
          (\<exists>idx<n_approximators s.
             syncs (calls (snd (fit c d n r s))) = syncs (calls s) @ [Some idx] \<and>
             target_approximator (snd (fit c d n r s)) =
               Ensemble (ws[idx := approximator (snd (fit c d n r s))]))) \<and>
         (n_updates s = 0 \<and> syncs (calls s) = [] \<longrightarrow>
            syncs (calls (snd (fits c cl s))) =
              map (\<lambda>k. Some (k mod n_approximators s))
                [1..<Suc (nat (n_updates (snd (fits c cl s)) div f))] \<and>
            (\<forall>j. j + n_approximators s \<le> length (syncs (calls (snd (fits c cl s)))) \<longrightarrow>
               distinct (take (n_approximators s) (drop j (syncs (calls (snd (fits c cl s)))))) \<and>
               set (take (n_approximators s) (drop j (syncs (calls (snd (fits c cl s)))))) =
                 Some ` {0..<n_approximators s}))"
proof -
  have idx: "nat (x mod int (n_approximators s)) < n_approximators s" for x
    using N by (simp add: nat_less_iff)
  have one: "(syncs (calls (snd (fit c d n r s))) = syncs (calls s) \<and>
           target_approximator (snd (fit c d n r s)) = Ensemble ws) \<or>
          (\<exists>idx<n_approximators s.
             syncs (calls (snd (fit c d n r s))) = syncs (calls s) @ [Some idx] \<and>
             target_approximator (snd (fit c d n r s)) =
               Ensemble (ws[idx := approximator (snd (fit c d n r s))]))"
    using fit_avg_step(4) [OF k f N ens, of c d n r] idx by blast
  have run: "syncs (calls (snd (fits c cl s))) =
              map (\<lambda>k. Some (k mod n_approximators s))
                [1..<Suc (nat (n_updates (snd (fits c cl s)) div f))] \<and>
            (\<forall>j. j + n_approximators s \<le> length (syncs (calls (snd (fits c cl s)))) \<longrightarrow>
               distinct (take (n_approximators s) (drop j (syncs (calls (snd (fits c cl s)))))) \<and>
               set (take (n_approximators s) (drop j (syncs (calls (snd (fits c cl s)))))) =
                 Some ` {0..<n_approximators s})"
    if fresh: "n_updates s = 0" "syncs (calls s) = []"
  proof -
    define K where "K = nat (n_updates (snd (fits c cl s)) div f)"
    have nn: "0 \<le> n_updates s" and inv: "syncs (calls s) =
       map (\<lambda>k. Some (k mod n_approximators s)) [1..<Suc (nat (n_updates s div f))]"
      using fresh by simp_all
    have e: "syncs (calls (snd (fits c cl s))) =
       map (\<lambda>k. Some (k mod n_approximators s)) [1..<Suc K]"
      unfolding K_def by (rule fits_avg_schedule [OF k f N ens nn inv])
    have len: "length (syncs (calls (snd (fits c cl s)))) = K"
      unfolding e by simp
    have w: "distinct (take (n_approximators s) (drop j (syncs (calls (snd (fits c cl s)))))) \<and>
        set (take (n_approximators s) (drop j (syncs (calls (snd (fits c cl s)))))) =
          Some ` {0..<n_approximators s}"
      if "j + n_approximators s \<le> length (syncs (calls (snd (fits c cl s))))" for j
    proof -
      have j: "j + n_approximators s \<le> K" using that len by simp
      define xs where "xs = map (\<lambda>k. k mod n_approximators s) [Suc j..<Suc j + n_approximators s]"
      have c: "distinct xs" "set xs = {0..<n_approximators s}"
        unfolding xs_def by (rule mod_window_cover [OF N])+
      have "distinct (map Some xs)" using c(1) by (simp add: distinct_map)
      moreover have "set (map Some xs) = Some ` {0..<n_approximators s}"
        using c(2) by simp
      ultimately show ?thesis
        unfolding e window_of_schedule [OF N j] xs_def [symmetric] by blast
    qed
    show ?thesis using e w unfolding K_def by blast
  qed
  show ?thesis using one run by blast
qed

theorem averaged_round_robin_witness:
  "(kind (ex_agent AveragedDQN (Some 2)) = AveragedDQN \<or>
    kind (ex_agent AveragedDQN (Some 2)) = WeightedDQN) \<and>
   target_update_frequency (ex_agent AveragedDQN (Some 2)) = Some 2 \<and> (0::int) < 2 \<and>
   0 < n_approximators (ex_agent AveragedDQN (Some 2)) \<and>
   target_approximator (ex_agent AveragedDQN (Some 2)) = Ensemble [[1, 2], [1, 2]] \<and>
   length [[1, 2], [1, 2 :: real]] = n_approximators (ex_agent AveragedDQN (Some 2)) \<and>
   n_updates (ex_agent AveragedDQN (Some 2)) = 0 \<and>
   syncs (calls (ex_agent AveragedDQN (Some 2))) = [] \<and>
   0 + n_approximators (ex_agent AveragedDQN (Some 2)) \<le>
     length (syncs (calls (snd (fits ex_collab (ex_run2 @ ex_run2)
                                  (ex_agent AveragedDQN (Some 2)))))) \<and>
   syncs (calls (snd (fits ex_collab (ex_run2 @ ex_run2) (ex_agent AveragedDQN (Some 2))))) =
     [Some 1, Some 0]"
proof -
  have h1: "kind (ex_agent AveragedDQN (Some 2)) = AveragedDQN \<or>
    kind (ex_agent AveragedDQN (Some 2)) = WeightedDQN"
    by (simp add: ex_agent_AveragedDQN)
  have h2: "target_update_frequency (ex_agent AveragedDQN (Some 2)) = Some 2"
    by (simp add: ex_agent_AveragedDQN)
  have h3: "(0::int) < 2" by simp
  have h4: "0 < n_approximators (ex_agent AveragedDQN (Some 2))"
    by (simp add: ex_agent_AveragedDQN)
  have h5: "target_approximator (ex_agent AveragedDQN (Some 2)) = Ensemble [[1, 2], [1, 2]]"
    by (simp add: ex_agent_AveragedDQN)
  have h6: "length [[1, 2], [1, 2 :: real]] = n_approximators (ex_agent AveragedDQN (Some 2))"
    by (simp add: ex_agent_AveragedDQN)
  show ?thesis
    using h1 h2 h3 h4 h5 h6
      averaged_round_robin [OF h1 h2 h3 h4 h5 h6, of ex_collab "[]" 1 0 "ex_run2 @ ex_run2"]
    by (simp add: ex_avg_after_four) (simp add: ex_agent_AveragedDQN)
qed

text \<open>
  The claim as stated, slot \<open>(k - 1) mod N\<close> at update \<open>k\<close>, fails at the first update
  of an agent with two slots and \<open>target_update_frequency = 2\<close>: after two fits the one
  update issued wrote slot 1.
\<close>

theorem first_sync_writes_slot_one:
  "syncs (calls (snd (fits ex_collab ex_run2 (ex_agent AveragedDQN (Some 2))))) = [Some 1] \<and>
   syncs (calls (snd (fits ex_collab ex_run2 (ex_agent AveragedDQN (Some 2))))) ! (1 - 1) \<noteq>
     Some ((1 - 1) mod n_approximators (ex_agent AveragedDQN (Some 2)))"
  unfolding ex_avg_after_two by (simp add: ex_agent_AveragedDQN)

subsection \<open>\<open>AveragedDQN._next_q\<close>\<close>

lemma collect_map_Inr: "collect (map (\<lambda>x. Inr (f x)) xs) = Inr (map f xs)"
  by (induction xs) auto

lemma predict_slots_Ensemble:
  assumes "n \<le> length ws"
  shows "predict_slots c (Ensemble ws) n ns = Inr (map (\<lambda>i. map (predict c (ws ! i)) ns) [0..<n])"
proof -
  have "map (\<lambda>idx. predict_idx c (Ensemble ws) idx ns) [0..<n] =
        map (\<lambda>i. Inr (map (predict c (ws ! i)) ns)) [0..<n]"
    by (rule map_cong [OF refl]) (use assms in \<open>simp add: predict_idx_def\<close>)
  then show ?thesis unfolding predict_slots_def by (simp only: collect_map_Inr)
qed

lemma map_upt_nth: "map (\<lambda>b. f (xs ! b)) [0..<length xs] = map f xs"
proof -
  have "map (\<lambda>b. f (xs ! b)) [0..<length xs] = map f (map (\<lambda>b. xs ! b) [0..<length xs])"
    by (simp only: map_map comp_def)
  then show ?thesis by (simp only: map_nth)
qed

lemma mean_of_slots:
  assumes n: "0 < n" and sh: "length (predict c (ws ! 0) x) = A"
  shows "mean_rows (map (\<lambda>i. predict c (ws ! i) x) [0..<n]) = map (mean_q c ws n x) [0..<A]"
proof -
  have hd: "hd (map (\<lambda>i. predict c (ws ! i) x) [0..<n]) = predict c (ws ! 0) x"
    using n by (simp add: hd_map upt_conv_Cons)
  show ?thesis
    unfolding mean_rows_def hd sh
    by (simp add: mean_q_def comp_def)
qed

lemma np_mean_axis0_slots:
  assumes n: "0 < n" and sh: "\<forall>x\<in>set ns. length (predict c (ws ! 0) x) = A"
  shows "np_mean_axis0 (map (\<lambda>i. map (predict c (ws ! i)) ns) [0..<n]) =
         map (\<lambda>x. map (mean_q c ws n x) [0..<A]) ns"
proof -
  have hd: "hd (map (\<lambda>i. map (predict c (ws ! i)) ns) [0..<n]) = map (predict c (ws ! 0)) ns"
    using n by (simp add: hd_map upt_conv_Cons)
  have "map (\<lambda>b. mean_rows (map (\<lambda>m. m ! b) (map (\<lambda>i. map (predict c (ws ! i)) ns) [0..<n])))
          [0..<length ns] =
        map (\<lambda>b. map (mean_q c ws n (ns ! b)) [0..<A]) [0..<length ns]"
  proof (intro map_cong refl)
    fix b assume "b \<in> set [0..<length ns]"
    then have b: "b < length ns" by simp
    have "map (\<lambda>m. m ! b) (map (\<lambda>i. map (predict c (ws ! i)) ns) [0..<n]) =
          map (\<lambda>i. predict c (ws ! i) (ns ! b)) [0..<n]"
      using b by (simp add: comp_def)
    moreover have "length (predict c (ws ! 0) (ns ! b)) = A" using sh b by simp
    ultimately show "mean_rows (map (\<lambda>m. m ! b) (map (\<lambda>i. map (predict c (ws ! i)) ns) [0..<n])) =
          map (mean_q c ws n (ns ! b)) [0..<A]"
      using mean_of_slots [OF n, of c ws "ns ! b" A] by (simp only:)
  qed
  then show ?thesis
    unfolding np_mean_axis0_def hd by (simp add: map_upt_nth [of "\<lambda>x. map (mean_q c ws n x) [0..<A]"])
qed

lemma fold_max_Max: "fold max xs (x::real) = Max (set (x # xs))"
  by (rule Max.set_eq_fold [symmetric])

lemma row_max_Max: "row \<noteq> [] \<Longrightarrow> row_max row = Inr (Max (set row))"
  by (cases row) (simp_all add: fold_max_Max del: set_simps)

lemma np_max_axis1_Max:
  assumes "\<forall>row\<in>set q. row \<noteq> []"
  shows "np_max_axis1 q = Inr (map (\<lambda>row. Max (set row)) q)"
proof -
  have "map row_max q = map (\<lambda>row. Inr (Max (set row))) q"
    by (rule map_cong [OF refl]) (use assms in \<open>simp add: row_max_Max\<close>)
  then show ?thesis unfolding np_max_axis1_def by (simp only: collect_map_Inr)
qed

lemma mask_rows_always:
  assumes "length absorbing = length q"
  shows "(if np_any absorbing then mask_rows q absorbing else q) = mask_rows q absorbing"
proof (cases "np_any absorbing")
  case True
  then show ?thesis by simp
next
  case False
  then have f: "\<forall>b\<in>set absorbing. \<not> b" unfolding np_any_def list_ex_iff by blast
  have "mask_rows q absorbing = q"
    unfolding mask_rows_def
  proof (rule nth_equalityI)
    show "length (map2 (\<lambda>row b. map (\<lambda>v. v * not_absorbing b) row) q absorbing) = length q"
      using assms by simp
    fix i assume "i < length (map2 (\<lambda>row b. map (\<lambda>v. v * not_absorbing b) row) q absorbing)"
    then have i: "i < length q" "i < length absorbing" by simp_all
    then have "\<not> absorbing ! i" using f nth_mem [of i absorbing] by blast
    then show "map2 (\<lambda>row b. map (\<lambda>v. v * not_absorbing b) row) q absorbing ! i = q ! i"
      using i by (simp add: not_absorbing_def)
  qed
  then show ?thesis using False by simp
qed


lemma masked_max_spec:
  "map (\<lambda>row. Max (set row))
     (mask_rows (map (\<lambda>x. map (mean_q c ws n x) [0..<A]) ns) absorbing) =
   map2 (averaged_next_q_spec c ws n A) ns absorbing"
proof -
  have n: "not_absorbing b = (if b then 0 else 1)" for b by (simp add: not_absorbing_def)
  show ?thesis
    unfolding mask_rows_def averaged_next_q_spec_def n
    by (simp add: zip_map1 comp_def split_def)
qed

lemma masked_rows_nonempty:
  assumes "0 < A"
  shows "\<forall>row\<in>set (mask_rows (map (\<lambda>x. map (mean_q c ws n x) [0..<A]) ns) absorbing). row \<noteq> []"
  using assms unfolding mask_rows_def by (auto simp: zip_map1 dest!: set_zip_leftD)

lemma next_q_averaged_spec:
  assumes ens: "target_approximator s = Ensemble ws"
    and n: "0 < n_fitted_target_models s" "n_fitted_target_models s \<le> length ws"
    and sh: "\<forall>i<n_fitted_target_models s. \<forall>x\<in>set next_state. length (predict c (ws ! i) x) = A"
      "0 < A"
    and len: "length absorbing = length next_state"
  shows "next_q_averaged c s next_state absorbing =
         Inr (map2 (averaged_next_q_spec c ws (n_fitted_target_models s) A) next_state absorbing)"
proof -
  define m where "m = n_fitted_target_models s"
  define q where "q = map (\<lambda>i. map (predict c (ws ! i)) next_state) [0..<m]"
  define qm where "qm = map (\<lambda>x. map (mean_q c ws m x) [0..<A]) next_state"
  have p: "predict_slots c (target_approximator s) (n_fitted_target_models s) next_state = Inr q"
    unfolding ens q_def m_def by (rule predict_slots_Ensemble [OF n(2)])
  have ne: "q \<noteq> []" using n(1) by (simp add: q_def m_def)
  have sh0: "\<forall>x\<in>set next_state. length (predict c (ws ! 0) x) = A"
    using sh(1) n(1) by blast
  have mean: "np_mean_axis0 q = qm"
    unfolding q_def qm_def by (rule np_mean_axis0_slots) (use n(1) sh0 in \<open>simp_all add: m_def\<close>)
  have lq: "length absorbing = length qm" using len by (simp add: qm_def)
  have "next_q_averaged c s next_state absorbing =
        np_max_axis1 (if np_any absorbing then mask_rows qm absorbing else qm)"
    unfolding next_q_averaged_def p using ne by (simp add: Let_def mean)
  also have "\<dots> = np_max_axis1 (mask_rows qm absorbing)"
    by (simp only: mask_rows_always [OF lq])
  also have "\<dots> = Inr (map (\<lambda>row. Max (set row)) (mask_rows qm absorbing))"
    unfolding qm_def by (rule np_max_axis1_Max) (rule masked_rows_nonempty [OF sh(2)])
  also have "map (\<lambda>row. Max (set row)) (mask_rows qm absorbing) =
       map2 (averaged_next_q_spec c ws m A) next_state absorbing"
    unfolding qm_def by (rule masked_max_spec)
  finally show ?thesis unfolding m_def .
qed

lemma averaged_next_q_spec_cong:
  assumes "\<forall>i<n. ws' ! i = ws ! i"
  shows "averaged_next_q_spec c ws' n A = averaged_next_q_spec c ws n A"
proof -
  have "(\<Sum>i\<leftarrow>[0..<n]. predict c (ws' ! i) x ! a) = (\<Sum>i\<leftarrow>[0..<n]. predict c (ws ! i) x ! a)" for x a
    by (rule arg_cong [where f = sum_list], rule map_cong [OF refl]) (use assms in simp)
  then have "mean_q c ws' n = mean_q c ws n"
    by (intro ext) (simp add: mean_q_def)
  then show ?thesis by (intro ext) (simp add: averaged_next_q_spec_def)
qed

lemma ex_avg3_after_two:
  "snd (fits ex_collab ex_run2 (ex_agent AveragedDQN (Some 3))) =
     \<lparr>kind = AveragedDQN, batch_size = Some 1, n_approximators = 3, clip_reward = True,
      target_update_frequency = Some 2, max_no_op_actions = 0, no_op_action_value = 0,
      replay_memory = [ex_transition 5 False], buffer_size = 1, buffer = [], n_updates = 2,
      episode_steps = 0, no_op_actions = None, approximator = [5, 6],
      target_approximator = Ensemble [[1, 2], [5, 6], [1, 2]],
      policy = 0, gamma = 1 / 2, mdp_info = None, n_fitted_target_models = 2,
      calls = [ReplayAdd, ReplayGet (Some 1), ApproximatorFit, ReplayAdd, ReplayGet (Some 1),
               ApproximatorFit, TargetSetWeights (Some 1)]\<rparr>"
  by (simp add: ex_run2_def ex_agent_def ex_init_def ex_params_def dqn_init_def ex_eval
      ex_eval_avg numeral_3_eq_3)

text \<open>
  Claim C5. Let the target of an \<open>AveragedDQN\<close> agent be an ensemble of which
  \<open>n_fitted_target_models\<close> slots, at least one, are fitted, and let these slots predict
  \<open>A > 0\<close> values per state. Then \<open>_next_q\<close> returns, for each sample, the maximum over the
  actions of the mean of the predictions of the first \<open>n_fitted_target_models\<close> slots,
  the mean being multiplied by \<open>1 - absorbing\<close> before the maximum is taken. The
  slots of index \<open>n_fitted_target_models\<close> and above do not contribute: replacing them
  by anything leaves the result unchanged.
\<close>

theorem averaged_next_q_max_of_mean:
  assumes k: "kind s = AveragedDQN"
    and ens: "target_approximator s = Ensemble ws"
    and n: "0 < n_fitted_target_models s" "n_fitted_target_models s \<le> length ws"
    and sh: "\<forall>i<n_fitted_target_models s. \<forall>x\<in>set next_state. length (predict c (ws ! i) x) = A"
      "0 < A"
    and len: "length absorbing = length next_state"
  shows "next_q c s next_state absorbing =
           Inr (map2 (averaged_next_q_spec c ws (n_fitted_target_models s) A)
                  next_state absorbing) \<and>
         (\<forall>ws'. take (n_fitted_target_models s) ws' = take (n_fitted_target_models s) ws \<longrightarrow>
            next_q c (s\<lparr>target_approximator := Ensemble ws'\<rparr>) next_state absorbing =
            next_q c s next_state absorbing)"
proof -
  have a: "next_q c s next_state absorbing =
           Inr (map2 (averaged_next_q_spec c ws (n_fitted_target_models s) A)
                  next_state absorbing)"
    using k next_q_averaged_spec [OF ens n sh len] by (simp add: next_q_def)
  have b: "next_q c (s\<lparr>target_approximator := Ensemble ws'\<rparr>) next_state absorbing =
            next_q c s next_state absorbing"
    if t: "take (n_fitted_target_models s) ws' = take (n_fitted_target_models s) ws" for ws'
  proof -
    define s' where "s' = s\<lparr>target_approximator := Ensemble ws'\<rparr>"
    have e': "target_approximator s' = Ensemble ws'"
      and m': "n_fitted_target_models s' = n_fitted_target_models s" and k': "kind s' = AveragedDQN"
      using k by (simp_all add: s'_def)
    have "length (take (n_fitted_target_models s) ws') = n_fitted_target_models s"
      unfolding t using n(2) by simp
    then have l': "n_fitted_target_models s \<le> length ws'" by simp
    have same: "\<forall>i<n_fitted_target_models s. ws' ! i = ws ! i"
    proof (intro allI impI)
      fix i assume i: "i < n_fitted_target_models s"
      have "ws' ! i = take (n_fitted_target_models s) ws' ! i" using i by simp
      also have "\<dots> = ws ! i" unfolding t using i by simp
      finally show "ws' ! i = ws ! i" .
    qed
    have sh': "\<forall>i<n_fitted_target_models s. \<forall>x\<in>set next_state. length (predict c (ws' ! i) x) = A"
      using sh(1) same by simp
    have "next_q c s' next_state absorbing =
           Inr (map2 (averaged_next_q_spec c ws' (n_fitted_target_models s) A)
                  next_state absorbing)"
      using k' next_q_averaged_spec [of s' ws' next_state c A absorbing] e' m' n(1) l' sh' sh(2) len
      by (simp add: next_q_def)
    then show ?thesis
      unfolding s'_def [symmetric] a averaged_next_q_spec_cong [OF same] .
  qed
  show ?thesis using a b by blast
qed


theorem averaged_next_q_max_of_mean_witness:
  "kind (snd (fits ex_collab ex_run2 (ex_agent AveragedDQN (Some 3)))) = AveragedDQN \<and>
   target_approximator (snd (fits ex_collab ex_run2 (ex_agent AveragedDQN (Some 3)))) =
     Ensemble [[1, 2], [5, 6], [1, 2]] \<and>
   0 < n_fitted_target_models (snd (fits ex_collab ex_run2 (ex_agent AveragedDQN (Some 3)))) \<and>
   n_fitted_target_models (snd (fits ex_collab ex_run2 (ex_agent AveragedDQN (Some 3)))) \<le>
     length [[1, 2], [5, 6], [1, 2 :: real]] \<and>
   n_fitted_target_models (snd (fits ex_collab ex_run2 (ex_agent AveragedDQN (Some 3)))) = 2 \<and>
   length (predict ex_collab ([[1, 2], [5, 6], [1, 2]] ! 0) [0]) = 2 \<and>
   length (predict ex_collab ([[1, 2], [5, 6], [1, 2]] ! 0) [1]) = 2 \<and>
   length (predict ex_collab ([[1, 2], [5, 6], [1, 2]] ! 1) [0]) = 2 \<and>
   length (predict ex_collab ([[1, 2], [5, 6], [1, 2]] ! 1) [1]) = 2 \<and>
   (0 :: nat) < 2 \<and> length [True, False] = length [[0], [1 :: nat]] \<and>
   take (n_fitted_target_models (snd (fits ex_collab ex_run2 (ex_agent AveragedDQN (Some 3)))))
     [[1, 2], [5, 6], [9, 9 :: real]] =
   take (n_fitted_target_models (snd (fits ex_collab ex_run2 (ex_agent AveragedDQN (Some 3)))))
     [[1, 2], [5, 6], [1, 2]] \<and>
   next_q ex_collab (snd (fits ex_collab ex_run2 (ex_agent AveragedDQN (Some 3))))
     [[0], [1]] [True, False] = Inr [0, 4] \<and>
   next_q ex_collab
     ((snd (fits ex_collab ex_run2 (ex_agent AveragedDQN (Some 3))))
        \<lparr>target_approximator := Ensemble [[1, 2], [5, 6], [9, 9]]\<rparr>)
     [[0], [1]] [True, False] = Inr [0, 4]"
proof -
  let ?S = "snd (fits ex_collab ex_run2 (ex_agent AveragedDQN (Some 3)))"
  have h1: "kind ?S = AveragedDQN" by (simp add: ex_avg3_after_two)
  have h2: "target_approximator ?S = Ensemble [[1, 2], [5, 6], [1, 2]]"
    by (simp add: ex_avg3_after_two)
  have h3: "0 < n_fitted_target_models ?S" by (simp add: ex_avg3_after_two)
  have h4: "n_fitted_target_models ?S \<le> length [[1, 2], [5, 6], [1, 2 :: real]]"
    by (simp add: ex_avg3_after_two)
  have n2: "n_fitted_target_models ?S = 2" by (simp add: ex_avg3_after_two)
  have h5: "\<forall>i<n_fitted_target_models ?S.
      \<forall>x\<in>set [[0], [1]]. length (predict ex_collab ([[1, 2], [5, 6], [1, 2]] ! i) x) = 2"
    unfolding n2 by (simp add: ex_collab_def numeral_2_eq_2 less_Suc_eq)
  have h6: "(0 :: nat) < 2" by simp
  have h7: "length [True, False] = length [[0], [1 :: nat]]" by simp
  have h8: "take (n_fitted_target_models ?S) [[1, 2], [5, 6], [9, 9 :: real]] =
      take (n_fitted_target_models ?S) [[1, 2], [5, 6], [1, 2]]"
    unfolding n2 by (simp add: numeral_2_eq_2)
  have v: "map2 (averaged_next_q_spec ex_collab [[1, 2], [5, 6], [1, 2]]
                   (n_fitted_target_models ?S) 2) [[0], [1]] [True, False] = [0, 4]"
    unfolding n2 by (simp add: averaged_next_q_spec_def mean_q_def ex_collab_def numeral_2_eq_2)
  have p: "length (predict ex_collab ([[1, 2], [5, 6], [1, 2]] ! 0) [0]) = 2"
    "length (predict ex_collab ([[1, 2], [5, 6], [1, 2]] ! 0) [1]) = 2"
    "length (predict ex_collab ([[1, 2], [5, 6], [1, 2]] ! 1) [0]) = 2"
    "length (predict ex_collab ([[1, 2], [5, 6], [1, 2]] ! 1) [1]) = 2"
    by (simp_all add: ex_collab_def)
  show ?thesis
    using h1 h2 h3 h4 h6 h7 h8 v n2 p
      averaged_next_q_max_of_mean [OF h1 h2 h3 h4 h5 h6 h7]
    by simp
qed

subsection \<open>\<open>WeightedDQN._next_q\<close>\<close>

lemma argmax_from_bound: "bi < i \<Longrightarrow> argmax_from best bi i xs < i + length xs"
proof (induction xs arbitrary: best bi i)
  case Nil
  then show ?case by simp
next
  case (Cons x xs)
  have "argmax_from x i (Suc i) xs < Suc i + length xs" by (rule Cons.IH) simp
  moreover have "argmax_from best bi (Suc i) xs < Suc i + length xs"
    by (rule Cons.IH) (use Cons.prems in simp)
  ultimately show ?case by simp
qed

lemma row_argmax_bound: "row_argmax row = Inr a \<Longrightarrow> a < length row"
  using argmax_from_bound [of 0 1] by (cases row) auto

lemma scatter_fold_nth:
  "b < length init \<Longrightarrow>
   fold (\<lambda>(a, k) count. count[a := real k]) (map (\<lambda>a. (a, g a)) as) init ! b =
     (if b \<in> set as then real (g b) else init ! b)"
proof (induction as arbitrary: init)
  case Nil
  then show ?case by simp
next
  case (Cons a as)
  have l: "b < length (init[a := real (g a)])" using Cons.prems by simp
  show ?case
    using Cons.IH [OF l] Cons.prems by (auto simp: nth_list_update)
qed

lemma scatter_fold_length:
  "length (fold (\<lambda>(a, k) count. count[a := real k]) uc init) = length init"
  by (induction uc arbitrary: init) (auto simp: split_def)

lemma scatter_counts_eq:
  "scatter_counts A (np_unique_counts v) = map (\<lambda>a. real (count_list v a)) [0..<A]"
proof (rule nth_equalityI)
  show "length (scatter_counts A (np_unique_counts v)) = length (map (\<lambda>a. real (count_list v a)) [0..<A])"
    by (simp add: scatter_counts_def scatter_fold_length)
  fix b assume "b < length (scatter_counts A (np_unique_counts v))"
  then have b: "b < A" by (simp add: scatter_counts_def scatter_fold_length)
  then have "scatter_counts A (np_unique_counts v) ! b = (if b \<in> set v then real (count_list v b) else 0)"
    unfolding scatter_counts_def np_unique_counts_def
    by (subst scatter_fold_nth) simp_all
  also have "\<dots> = real (count_list v b)"
    by (simp add: count_list_0_iff)
  finally show "scatter_counts A (np_unique_counts v) ! b = map (\<lambda>a. real (count_list v a)) [0..<A] ! b"
    using b by simp
qed

lemma np_dot_maps:
  "np_dot (map f [0..<A]) (map g [0..<A]) = (\<Sum>a\<leftarrow>[0..<A]. f a * g a)"
  by (simp add: np_dot_def zip_map_map comp_def zip_same_conv_map)

lemma count_list_map_filter:
  "count_list (map f js) a = length (filter (\<lambda>j. f j = a) js)"
  by (induction js) auto


lemma collect_map_id:
  assumes "\<forall>x\<in>set xs. f x = Inr x"
  shows "collect (map f xs) = Inr xs"
proof -
  have "map f xs = map (\<lambda>x. Inr (id x)) xs"
    by (rule map_cong [OF refl]) (use assms in simp)
  then show ?thesis by (simp only: collect_map_Inr) simp
qed

lemma store_sample_id:
  assumes "\<forall>row\<in>set m. length row = A"
  shows "store_sample A m = Inr m"
  unfolding store_sample_def
  by (rule collect_map_id) (use assms in \<open>simp add: store_row_def\<close>)

lemma weighted_value_spec:
  assumes n: "0 < n" and sh: "\<forall>j<n. length (predict c (ws ! j) x) = A" and A: "0 < A"
  shows "weighted_value A n (map (\<lambda>j. predict c (ws ! j) x) [0..<n]) =
         Inr (weighted_next_q_spec c ws n A x)"
proof -
  define rows where "rows = map (\<lambda>j. predict c (ws ! j) x) [0..<n]"
  define am where "am j = (case row_argmax (predict c (ws ! j) x) of Inr a \<Rightarrow> a | Inl e \<Rightarrow> 0)" for j
  have sh0: "length (predict c (ws ! 0) x) = A" using sh n by blast
  have means: "mean_rows rows = map (mean_q c ws n x) [0..<A]"
    unfolding rows_def by (rule mean_of_slots [OF n sh0])
  have am: "row_argmax (predict c (ws ! j) x) = Inr (am j)" if "j < n" for j
  proof -
    have "predict c (ws ! j) x \<noteq> []" using sh that A by auto
    then show ?thesis by (cases "predict c (ws ! j) x") (simp_all add: am_def)
  qed
  have "map row_argmax rows = map (\<lambda>j. Inr (am j)) [0..<n]"
    unfolding rows_def map_map comp_def
    by (rule map_cong [OF refl]) (use am in simp)
  then have arg: "np_argmax_axis1 rows = Inr (map am [0..<n])"
    unfolding np_argmax_axis1_def by (simp only: collect_map_Inr)
  have cnt: "count_list (map am [0..<n]) a =
      length (filter (\<lambda>j. row_argmax (predict c (ws ! j) x) = Inr a) [0..<n])" for a
  proof -
    have "filter (\<lambda>j. am j = a) [0..<n] =
          filter (\<lambda>j. row_argmax (predict c (ws ! j) x) = Inr a) [0..<n]"
      by (rule filter_cong [OF refl]) (use am in auto)
    then show ?thesis by (simp only: count_list_map_filter)
  qed
  have w: "map (\<lambda>k. k / real n) (scatter_counts A (np_unique_counts (map am [0..<n]))) =
        map (weight_spec c ws n x) [0..<A]"
    unfolding scatter_counts_eq map_map comp_def cnt weight_spec_def ..
  have "weighted_value A n rows =
        Inr (np_dot (map (weight_spec c ws n x) [0..<A]) (map (mean_q c ws n x) [0..<A]))"
    unfolding weighted_value_def arg means by (simp add: Let_def w)
  then show ?thesis
    unfolding rows_def np_dot_maps weighted_next_q_spec_def .
qed

lemma mask_vec_always:
  assumes "length absorbing = length W"
  shows "(if np_any absorbing then mask_vec W absorbing else W) = mask_vec W absorbing"
proof (cases "np_any absorbing")
  case True
  then show ?thesis by simp
next
  case False
  then have f: "\<forall>b\<in>set absorbing. \<not> b" unfolding np_any_def list_ex_iff by blast
  have "mask_vec W absorbing = W"
    unfolding mask_vec_def
  proof (rule nth_equalityI)
    show "length (map2 (\<lambda>v b. v * not_absorbing b) W absorbing) = length W"
      using assms by simp
    fix i assume "i < length (map2 (\<lambda>v b. v * not_absorbing b) W absorbing)"
    then have i: "i < length W" "i < length absorbing" by simp_all
    then have "\<not> absorbing ! i" using f nth_mem [of i absorbing] by blast
    then show "map2 (\<lambda>v b. v * not_absorbing b) W absorbing ! i = W ! i"
      using i by (simp add: not_absorbing_def)
  qed
  then show ?thesis using False by simp
qed

lemma next_q_weighted_spec:
  assumes mdp: "mdp_info s = Some A"
    and ens: "target_approximator s = Ensemble ws"
    and n: "0 < n_fitted_target_models s" "n_fitted_target_models s \<le> length ws"
    and sh: "\<forall>j<n_fitted_target_models s. \<forall>x\<in>set next_state. length (predict c (ws ! j) x) = A"
      "0 < A"
    and len: "length absorbing = length next_state"
  shows "next_q_weighted c s next_state absorbing =
         Inr (map2 (\<lambda>x b. if b then 0
                           else weighted_next_q_spec c ws (n_fitted_target_models s) A x)
                next_state absorbing)"
proof -
  define m where "m = n_fitted_target_models s"
  define q where "q = map (\<lambda>j. map (predict c (ws ! j)) next_state) [0..<m]"
  have p: "predict_slots c (target_approximator s) m next_state = Inr q"
    unfolding ens q_def m_def by (rule predict_slots_Ensemble [OF n(2)])
  have ne: "q \<noteq> []" using n(1) by (simp add: q_def m_def)
  have st: "collect (map (store_sample A) q) = Inr q"
  proof (rule collect_map_id, intro ballI)
    fix p assume "p \<in> set q"
    then obtain j where j: "j < m" "p = map (predict c (ws ! j)) next_state"
      by (auto simp: q_def)
    show "store_sample A p = Inr p"
      by (rule store_sample_id) (use j sh(1) in \<open>auto simp: m_def\<close>)
  qed
  have "map (\<lambda>i. weighted_value A m (map (\<lambda>p. p ! i) q)) [0..<length next_state] =
        map (\<lambda>i. Inr (weighted_next_q_spec c ws m A (next_state ! i))) [0..<length next_state]"
  proof (rule map_cong [OF refl])
    fix i assume "i \<in> set [0..<length next_state]"
    then have i: "i < length next_state" by simp
    have r: "map (\<lambda>p. p ! i) q = map (\<lambda>j. predict c (ws ! j) (next_state ! i)) [0..<m]"
      using i by (simp add: q_def comp_def)
    have "\<forall>j<m. length (predict c (ws ! j) (next_state ! i)) = A"
      using sh(1) i by (simp add: m_def)
    then show "weighted_value A m (map (\<lambda>p. p ! i) q) =
        Inr (weighted_next_q_spec c ws m A (next_state ! i))"
      unfolding r using n(1) sh(2) by (intro weighted_value_spec) (simp_all add: m_def)
  qed
  then have W: "collect (map (\<lambda>i. weighted_value A m (map (\<lambda>p. p ! i) q)) [0..<length next_state]) =
        Inr (map (weighted_next_q_spec c ws m A) next_state)"
    by (simp only: collect_map_Inr map_upt_nth)
  have lw: "length absorbing = length (map (weighted_next_q_spec c ws m A) next_state)"
    using len by simp
  have "next_q_weighted c s next_state absorbing =
        Inr (if np_any absorbing
             then mask_vec (map (weighted_next_q_spec c ws m A) next_state) absorbing
             else map (weighted_next_q_spec c ws m A) next_state)"
    unfolding next_q_weighted_def mdp m_def [symmetric] p using ne by (simp add: st W)
  also have "\<dots> = Inr (mask_vec (map (weighted_next_q_spec c ws m A) next_state) absorbing)"
    by (simp only: mask_vec_always [OF lw])
  also have "mask_vec (map (weighted_next_q_spec c ws m A) next_state) absorbing =
        map2 (\<lambda>x b. if b then 0 else weighted_next_q_spec c ws m A x) next_state absorbing"
    unfolding mask_vec_def by (simp add: zip_map1 split_def not_absorbing_def)
  finally show ?thesis unfolding m_def .
qed


lemma row_argmax_total:
  assumes "length row = A" "0 < A"
  shows "\<exists>a<A. row_argmax row = Inr a"
proof -
  from assms obtain x xs where r: "row = x # xs" by (cases row) auto
  then have "row_argmax row = Inr (argmax_from x 0 1 xs)" by simp
  moreover from this have "argmax_from x 0 1 xs < A"
    using row_argmax_bound [of row] assms(1) by simp
  ultimately show ?thesis by blast
qed

lemma sum_list_upt_sum: "(\<Sum>a\<leftarrow>[0..<A]. f a) = (\<Sum>a\<in>{0..<A}. f a)" for f :: "nat \<Rightarrow> real"
  by (simp add: interv_sum_list_conv_sum_set_nat)

lemma count_slots_total:
  fixes A :: nat
  assumes "\<forall>j\<in>set js. \<exists>a<A. g j = Inr a"
  shows "(\<Sum>a\<in>{0..<A}. length (filter (\<lambda>j. g j = Inr a) js)) = length js"
  using assms
proof (induction js)
  case Nil
  then show ?case by simp
next
  case (Cons j js)
  from Cons.prems obtain a0 where a0: "a0 < A" "g j = Inr a0" by auto
  have "(\<Sum>a\<in>{0..<A}. length (filter (\<lambda>j. g j = Inr a) (j # js))) =
        (\<Sum>a\<in>{0..<A}. (if a = a0 then 1 else 0) + length (filter (\<lambda>j. g j = Inr a) js))"
    by (rule sum.cong) (use a0 in auto)
  also have "\<dots> = (\<Sum>a\<in>{0..<A}. if a = a0 then 1 else 0) +
        (\<Sum>a\<in>{0..<A}. length (filter (\<lambda>j. g j = Inr a) js))"
    by (rule sum.distrib)
  also have "(\<Sum>a\<in>{0..<A}. if a = a0 then 1 else 0) = (1::nat)"
    using sum.delta [of "{0..<A}" a0 "\<lambda>a. 1 :: nat"] a0(1) by simp
  also have "(\<Sum>a\<in>{0..<A}. length (filter (\<lambda>j. g j = Inr a) js)) = length js"
    by (rule Cons.IH) (use Cons.prems in simp)
  finally show ?case by simp
qed

lemma weight_spec_sum:
  assumes n: "0 < n" and sh: "\<forall>j<n. length (predict c (ws ! j) x) = A" and A: "0 < A"
  shows "(\<Sum>a\<leftarrow>[0..<A]. weight_spec c ws n x a) = 1"
proof -
  have t: "\<forall>j\<in>set [0..<n]. \<exists>a<A. row_argmax (predict c (ws ! j) x) = Inr a"
    using sh A by (auto intro: row_argmax_total)
  have "(\<Sum>a\<in>{0..<A}. weight_spec c ws n x a) =
        real (\<Sum>a\<in>{0..<A}. length (filter (\<lambda>j. row_argmax (predict c (ws ! j) x) = Inr a) [0..<n]))
          / real n"
    unfolding weight_spec_def by (simp add: sum_divide_distrib)
  also have "\<dots> = real (length [0..<n]) / real n"
    by (simp only: count_slots_total [OF t])
  also have "\<dots> = 1" using n by simp
  finally show ?thesis by (simp only: sum_list_upt_sum)
qed

lemma weight_spec_none:
  assumes "\<forall>j<n. row_argmax (predict c (ws ! j) x) \<noteq> Inr a"
  shows "weight_spec c ws n x a = 0"
proof -
  have "filter (\<lambda>j. row_argmax (predict c (ws ! j) x) = Inr a) [0..<n] = []"
    using assms by (simp add: filter_empty_conv)
  then show ?thesis by (simp add: weight_spec_def)
qed

lemma weight_spec_all:
  assumes "0 < n" "\<forall>j<n. row_argmax (predict c (ws ! j) x) = Inr a"
  shows "weight_spec c ws n x a = 1"
proof -
  have "filter (\<lambda>j. row_argmax (predict c (ws ! j) x) = Inr a) [0..<n] = [0..<n]"
    using assms(2) by (simp add: filter_id_conv)
  then show ?thesis using assms(1) by (simp add: weight_spec_def)
qed

lemma weight_spec_pos_bound:
  assumes "weight_spec c ws n x a \<noteq> 0" and sh: "\<forall>j<n. length (predict c (ws ! j) x) = A"
  shows "a < A"
proof -
  from assms(1) have "\<not> (\<forall>j<n. row_argmax (predict c (ws ! j) x) \<noteq> Inr a)"
    using weight_spec_none [of n c ws x a] by blast
  then obtain j where "j < n" "row_argmax (predict c (ws ! j) x) = Inr a" by blast
  then show ?thesis using row_argmax_bound [of "predict c (ws ! j) x" a] sh by simp
qed

lemma weighted_agree:
  assumes n: "0 < n" and sh: "\<forall>j<n. length (predict c (ws ! j) x) = A"
    and same: "\<forall>j<n. row_argmax (predict c (ws ! j) x) = Inr a"
  shows "weighted_next_q_spec c ws n A x = mean_q c ws n x a"
proof -
  have w1: "weight_spec c ws n x a = 1" by (rule weight_spec_all [OF n same])
  then have a: "a \<in> {0..<A}" using weight_spec_pos_bound [of c ws n x a A] sh by simp
  have w0: "weight_spec c ws n x b = 0" if "b \<noteq> a" for b
    by (rule weight_spec_none) (use same that in auto)
  have "weighted_next_q_spec c ws n A x =
        (\<Sum>b\<in>{0..<A}. if b = a then mean_q c ws n x b else 0)"
    unfolding weighted_next_q_spec_def sum_list_upt_sum
    by (rule sum.cong) (use w1 w0 in auto)
  also have "\<dots> = mean_q c ws n x a"
    using sum.delta [of "{0..<A}" a "mean_q c ws n x"] a by simp
  finally show ?thesis .
qed

lemma weighted_split:
  assumes n: "0 < n" and sh: "\<forall>j<n. length (predict c (ws ! j) x) = A" and A: "0 < A"
    and two: "\<forall>j<n. row_argmax (predict c (ws ! j) x) = Inr a1 \<or>
                     row_argmax (predict c (ws ! j) x) = Inr a2"
    and ne: "a1 \<noteq> a2"
    and even: "weight_spec c ws n x a1 = weight_spec c ws n x a2"
  shows "weight_spec c ws n x a1 = 1 / 2" "weight_spec c ws n x a2 = 1 / 2"
    "weighted_next_q_spec c ws n A x = 1 / 2 * mean_q c ws n x a1 + 1 / 2 * mean_q c ws n x a2"
proof -
  have w0: "weight_spec c ws n x b = 0" if "b \<noteq> a1" "b \<noteq> a2" for b
    by (rule weight_spec_none) (use two that in auto)
  have tot: "(\<Sum>a\<in>{0..<A}. weight_spec c ws n x a) = 1"
    using weight_spec_sum [OF n sh A] by (simp only: sum_list_upt_sum)
  have nz: "weight_spec c ws n x a1 \<noteq> 0"
  proof
    assume z: "weight_spec c ws n x a1 = 0"
    have z2: "weight_spec c ws n x a2 = 0" unfolding even [symmetric] by (rule z)
    have "weight_spec c ws n x b = 0" for b
    proof (cases "b = a1")
      case True
      then show ?thesis by (simp only: z)
    next
      case False
      show ?thesis
      proof (cases "b = a2")
        case True
        then show ?thesis by (simp only: z2)
      next
        case b2: False
        show ?thesis by (rule w0 [OF False b2])
      qed
    qed
    then have "(\<Sum>a\<in>{0..<A}. weight_spec c ws n x a) = 0" by (simp only: sum.neutral_const)
    with tot show False by simp
  qed
  have nz2: "weight_spec c ws n x a2 \<noteq> 0" unfolding even [symmetric] by (rule nz)
  have b1: "a1 \<in> {0..<A}" using weight_spec_pos_bound [of c ws n x a1 A] sh nz by simp
  have b2: "a2 \<in> {0..<A}" using weight_spec_pos_bound [of c ws n x a2 A] sh nz2 by simp
  have sub: "{a1, a2} \<subseteq> {0..<A}" using b1 b2 by simp
  have red: "(\<Sum>a\<in>{a1, a2}. f a * weight_spec c ws n x a) =
             (\<Sum>a\<in>{0..<A}. f a * weight_spec c ws n x a)" for f :: "nat \<Rightarrow> real"
  proof (rule sum.mono_neutral_left)
    show "finite {0..<A}" by simp
    show "{a1, a2} \<subseteq> {0..<A}" by (rule sub)
    show "\<forall>i\<in>{0..<A} - {a1, a2}. f i * weight_spec c ws n x i = 0"
    proof
      fix i assume "i \<in> {0..<A} - {a1, a2}"
      then have "i \<noteq> a1" "i \<noteq> a2" by simp_all
      from w0 [OF this] show "f i * weight_spec c ws n x i = 0" by simp
    qed
  qed
  have pair: "(\<Sum>a\<in>{a1, a2}. g a) = g a1 + g a2" for g :: "nat \<Rightarrow> real"
    using ne by simp
  have "weight_spec c ws n x a1 + weight_spec c ws n x a2 =
        (\<Sum>a\<in>{0..<A}. 1 * weight_spec c ws n x a)"
    unfolding red [symmetric] pair by simp
  also have "\<dots> = 1" using tot by simp
  finally have s1: "weight_spec c ws n x a1 + weight_spec c ws n x a2 = 1" .
  then have "2 * weight_spec c ws n x a1 = 1" unfolding even [symmetric] by simp
  then show h1: "weight_spec c ws n x a1 = 1 / 2" by simp
  then show h2: "weight_spec c ws n x a2 = 1 / 2" unfolding even [symmetric] .
  have "weighted_next_q_spec c ws n A x =
        (\<Sum>a\<in>{0..<A}. mean_q c ws n x a * weight_spec c ws n x a)"
    unfolding weighted_next_q_spec_def sum_list_upt_sum by (simp only: mult.commute)
  also have "\<dots> = (\<Sum>a\<in>{a1, a2}. mean_q c ws n x a * weight_spec c ws n x a)"
    by (rule red [symmetric])
  also have "\<dots> = mean_q c ws n x a1 * weight_spec c ws n x a1 +
       mean_q c ws n x a2 * weight_spec c ws n x a2"
    by (rule pair)
  also have "\<dots> = 1 / 2 * mean_q c ws n x a1 + 1 / 2 * mean_q c ws n x a2"
    unfolding h1 h2 by simp
  finally show "weighted_next_q_spec c ws n A x =
      1 / 2 * mean_q c ws n x a1 + 1 / 2 * mean_q c ws n x a2" .
qed


lemma ex_weighted_eq:
  "ex_weighted ws n =
     \<lparr>kind = WeightedDQN, batch_size = Some 1, n_approximators = 2, clip_reward = True,
      target_update_frequency = Some 2, max_no_op_actions = 0, no_op_action_value = 0,
      replay_memory = [], buffer_size = 1, buffer = [], n_updates = 0, episode_steps = 0,
      no_op_actions = None, approximator = [1, 2], target_approximator = Ensemble ws,
      policy = 0, gamma = 1 / 2, mdp_info = Some 2, n_fitted_target_models = n, calls = []\<rparr>"
  by (simp add: ex_weighted_def initialize_def ex_agent_def ex_init_def ex_params_def
      dqn_init_def numeral_2_eq_2)

lemmas ex_eval_weighted =
  next_q_def next_q_weighted_def predict_slots_def predict_idx_def store_sample_def
  store_row_def weighted_value_def mean_rows_def np_argmax_axis1_def np_unique_counts_def
  scatter_counts_def np_dot_def mask_vec_def not_absorbing_def np_any_def ex_collab_def Let_def

text \<open>
  Claim C6, amended. Let the target of a \<open>WeightedDQN\<close> agent be an ensemble of which
  \<open>n_fitted_target_models\<close> slots, at least one, are fitted, and let these slots predict
  one value for each of the \<open>A > 0\<close> actions. For every sample that is not absorbing,
  \<open>_next_q\<close> returns the dot product of the weights \<open>w[a] = count[a] / n_fitted_target_models\<close>
  (\<open>count[a]\<close> the number of fitted slots whose own \<open>argmax\<close> is \<open>a\<close>) with the mean Q-vector
  of the fitted slots; for an absorbing sample it returns 0. The weights sum to 1.
  When all fitted slots have the same \<open>argmax\<close>, the dot product is the mean Q-value of
  that action. When the slots are evenly split between two actions, both weights are
  1/2 and the dot product is the half sum of the two mean Q-values.
\<close>

theorem weighted_next_q_dot_product:
  assumes k: "kind s = WeightedDQN" and mdp: "mdp_info s = Some A"
    and ens: "target_approximator s = Ensemble ws"
    and n: "0 < n_fitted_target_models s" "n_fitted_target_models s \<le> length ws"
    and sh: "\<forall>j<n_fitted_target_models s. \<forall>x\<in>set next_state. length (predict c (ws ! j) x) = A"
      "0 < A"
    and len: "length absorbing = length next_state"
  shows "next_q c s next_state absorbing =
           Inr (map2 (\<lambda>x b. if b then 0
                             else weighted_next_q_spec c ws (n_fitted_target_models s) A x)
                  next_state absorbing) \<and>
         (\<forall>x\<in>set next_state.
            (\<Sum>a\<leftarrow>[0..<A]. weight_spec c ws (n_fitted_target_models s) x a) = 1 \<and>
            (\<forall>a. (\<forall>j<n_fitted_target_models s. row_argmax (predict c (ws ! j) x) = Inr a) \<longrightarrow>
                 weighted_next_q_spec c ws (n_fitted_target_models s) A x =
                   mean_q c ws (n_fitted_target_models s) x a) \<and>
            (\<forall>a1 a2.
               a1 \<noteq> a2 \<and>
               (\<forall>j<n_fitted_target_models s.
                  row_argmax (predict c (ws ! j) x) = Inr a1 \<or>
                  row_argmax (predict c (ws ! j) x) = Inr a2) \<and>
               weight_spec c ws (n_fitted_target_models s) x a1 =
                 weight_spec c ws (n_fitted_target_models s) x a2 \<longrightarrow>
               weight_spec c ws (n_fitted_target_models s) x a1 = 1 / 2 \<and>
               weight_spec c ws (n_fitted_target_models s) x a2 = 1 / 2 \<and>
               weighted_next_q_spec c ws (n_fitted_target_models s) A x =
                 1 / 2 * mean_q c ws (n_fitted_target_models s) x a1 +
                 1 / 2 * mean_q c ws (n_fitted_target_models s) x a2))"
proof -
  have a: "next_q c s next_state absorbing =
           Inr (map2 (\<lambda>x b. if b then 0
                             else weighted_next_q_spec c ws (n_fitted_target_models s) A x)
                  next_state absorbing)"
    using k next_q_weighted_spec [OF mdp ens n sh len] by (simp add: next_q_def)
  have b: "(\<Sum>a\<leftarrow>[0..<A]. weight_spec c ws (n_fitted_target_models s) x a) = 1 \<and>
            (\<forall>a. (\<forall>j<n_fitted_target_models s. row_argmax (predict c (ws ! j) x) = Inr a) \<longrightarrow>
                 weighted_next_q_spec c ws (n_fitted_target_models s) A x =
                   mean_q c ws (n_fitted_target_models s) x a) \<and>
            (\<forall>a1 a2.
               a1 \<noteq> a2 \<and>
               (\<forall>j<n_fitted_target_models s.
                  row_argmax (predict c (ws ! j) x) = Inr a1 \<or>
                  row_argmax (predict c (ws ! j) x) = Inr a2) \<and>
               weight_spec c ws (n_fitted_target_models s) x a1 =
                 weight_spec c ws (n_fitted_target_models s) x a2 \<longrightarrow>
               weight_spec c ws (n_fitted_target_models s) x a1 = 1 / 2 \<and>
               weight_spec c ws (n_fitted_target_models s) x a2 = 1 / 2 \<and>
               weighted_next_q_spec c ws (n_fitted_target_models s) A x =
                 1 / 2 * mean_q c ws (n_fitted_target_models s) x a1 +
                 1 / 2 * mean_q c ws (n_fitted_target_models s) x a2)"
    if x: "x \<in> set next_state" for x
  proof -
    have shx: "\<forall>j<n_fitted_target_models s. length (predict c (ws ! j) x) = A"
      using sh(1) x by blast
    show ?thesis
      using weight_spec_sum [OF n(1) shx sh(2)] weighted_agree [OF n(1) shx]
        weighted_split [OF n(1) shx sh(2)]
      by blast
  qed
  show ?thesis using a b by blast
qed


theorem weighted_next_q_dot_product_witness:
  "kind (ex_weighted [[1, 2], [3, 0]] 2) = WeightedDQN \<and>
   mdp_info (ex_weighted [[1, 2], [3, 0]] 2) = Some 2 \<and>
   target_approximator (ex_weighted [[1, 2], [3, 0]] 2) = Ensemble [[1, 2], [3, 0]] \<and>
   n_fitted_target_models (ex_weighted [[1, 2], [3, 0]] 2) = 2 \<and>
   length (predict ex_collab ([[1, 2], [3, 0]] ! 0) [0]) = 2 \<and>
   length (predict ex_collab ([[1, 2], [3, 0]] ! 1) [0]) = 2 \<and>
   length [False] = length [[0 :: nat]] \<and>
   row_argmax (predict ex_collab ([[1, 2], [3, 0]] ! 0) [0]) = Inr 1 \<and>
   row_argmax (predict ex_collab ([[1, 2], [3, 0]] ! 1) [0]) = Inr 0 \<and>
   weight_spec ex_collab [[1, 2], [3, 0]] 2 [0] 1 = weight_spec ex_collab [[1, 2], [3, 0]] 2 [0] 0 \<and>
   weight_spec ex_collab [[1, 2], [3, 0]] 2 [0] 1 = 1 / 2 \<and>
   next_q ex_collab (ex_weighted [[1, 2], [3, 0]] 2) [[0]] [False] = Inr [3 / 2] \<and>
   row_argmax (predict ex_collab ([[1, 2], [1, 2]] ! 0) [0]) = Inr 1 \<and>
   next_q ex_collab (ex_weighted [[1, 2], [1, 2]] 1) [[0]] [False] = Inr [2]"
proof -
  let ?S = "ex_weighted [[1, 2], [3, 0]] 2"
  have h1: "kind ?S = WeightedDQN" and h2: "mdp_info ?S = Some 2"
    and h3: "target_approximator ?S = Ensemble [[1, 2], [3, 0]]"
    and n2: "n_fitted_target_models ?S = 2"
    by (simp_all add: ex_weighted_eq)
  have h4: "0 < n_fitted_target_models ?S" "n_fitted_target_models ?S \<le> length [[1, 2], [3, 0 :: real]]"
    unfolding n2 by simp_all
  have p: "length (predict ex_collab ([[1, 2], [3, 0]] ! 0) [0]) = 2"
    "length (predict ex_collab ([[1, 2], [3, 0]] ! 1) [0]) = 2"
    by (simp_all add: ex_collab_def)
  have h5: "\<forall>j<n_fitted_target_models ?S. \<forall>x\<in>set [[0]].
      length (predict ex_collab ([[1, 2], [3, 0]] ! j) x) = 2"
    unfolding n2 using p by (simp add: numeral_2_eq_2 less_Suc_eq)
  have h6: "(0 :: nat) < 2" by simp
  have h7: "length [False] = length [[0 :: nat]]" by simp
  have am: "row_argmax (predict ex_collab ([[1, 2], [3, 0]] ! 0) [0]) = Inr 1"
    "row_argmax (predict ex_collab ([[1, 2], [3, 0]] ! 1) [0]) = Inr 0"
    by (simp_all add: ex_collab_def)
  have two: "\<forall>j<n_fitted_target_models ?S.
      row_argmax (predict ex_collab ([[1, 2], [3, 0]] ! j) [0]) = Inr 1 \<or>
      row_argmax (predict ex_collab ([[1, 2], [3, 0]] ! j) [0]) = Inr 0"
    unfolding n2 using am by (simp add: numeral_2_eq_2 less_Suc_eq)
  have ev: "weight_spec ex_collab [[1, 2], [3, 0]] 2 [0] 1 =
      weight_spec ex_collab [[1, 2], [3, 0]] 2 [0] 0"
    by (simp add: weight_spec_def ex_collab_def numeral_2_eq_2)
  note T = weighted_next_q_dot_product [OF h1 h2 h3 h4 h5 h6 h7]
  from T have T2: "\<forall>a1 a2.
               a1 \<noteq> a2 \<and>
               (\<forall>j<n_fitted_target_models ?S.
                  row_argmax (predict ex_collab ([[1, 2], [3, 0]] ! j) [0]) = Inr a1 \<or>
                  row_argmax (predict ex_collab ([[1, 2], [3, 0]] ! j) [0]) = Inr a2) \<and>
               weight_spec ex_collab [[1, 2], [3, 0]] (n_fitted_target_models ?S) [0] a1 =
                 weight_spec ex_collab [[1, 2], [3, 0]] (n_fitted_target_models ?S) [0] a2 \<longrightarrow>
               weight_spec ex_collab [[1, 2], [3, 0]] (n_fitted_target_models ?S) [0] a1 = 1 / 2 \<and>
               weight_spec ex_collab [[1, 2], [3, 0]] (n_fitted_target_models ?S) [0] a2 = 1 / 2 \<and>
               weighted_next_q_spec ex_collab [[1, 2], [3, 0]] (n_fitted_target_models ?S) 2 [0] =
                 1 / 2 * mean_q ex_collab [[1, 2], [3, 0]] (n_fitted_target_models ?S) [0] a1 +
                 1 / 2 * mean_q ex_collab [[1, 2], [3, 0]] (n_fitted_target_models ?S) [0] a2"
    by simp
  have sp: "weight_spec ex_collab [[1, 2], [3, 0]] 2 [0] 1 = 1 / 2"
    "weighted_next_q_spec ex_collab [[1, 2], [3, 0]] 2 2 [0] =
       1 / 2 * mean_q ex_collab [[1, 2], [3, 0]] 2 [0] 1 +
       1 / 2 * mean_q ex_collab [[1, 2], [3, 0]] 2 [0] 0"
    using T2 [rule_format, of 1 0] two ev unfolding n2 by simp_all
  have m: "mean_q ex_collab [[1, 2], [3, 0]] 2 [0] 1 = 1" "mean_q ex_collab [[1, 2], [3, 0]] 2 [0] 0 = 2"
    by (simp_all add: mean_q_def ex_collab_def numeral_2_eq_2)
  have T1: "next_q ex_collab ?S [[0]] [False] =
      Inr [weighted_next_q_spec ex_collab [[1, 2], [3, 0]] 2 2 [0]]"
    using T unfolding n2 by simp
  have v: "weighted_next_q_spec ex_collab [[1, 2], [3, 0]] 2 2 [0] = 3 / 2"
    unfolding sp(2) m by simp
  have r: "next_q ex_collab ?S [[0]] [False] = Inr [3 / 2]"
    unfolding T1 v ..
  let ?U = "ex_weighted [[1, 2], [1, 2]] 1"
  have g1: "kind ?U = WeightedDQN" and g2: "mdp_info ?U = Some 2"
    and g3: "target_approximator ?U = Ensemble [[1, 2], [1, 2]]"
    and n1: "n_fitted_target_models ?U = 1"
    by (simp_all add: ex_weighted_eq)
  have g4: "0 < n_fitted_target_models ?U" "n_fitted_target_models ?U \<le> length [[1, 2], [1, 2 :: real]]"
    unfolding n1 by simp_all
  have g5: "\<forall>j<n_fitted_target_models ?U. \<forall>x\<in>set [[0]].
      length (predict ex_collab ([[1, 2], [1, 2]] ! j) x) = 2"
    unfolding n1 by (simp add: ex_collab_def)
  have am1: "row_argmax (predict ex_collab ([[1, 2], [1, 2]] ! 0) [0]) = Inr 1"
    by (simp add: ex_collab_def)
  note U = weighted_next_q_dot_product [OF g1 g2 g3 g4 g5 h6 h7]
  from U have U2: "\<forall>a. (\<forall>j<n_fitted_target_models ?U.
         row_argmax (predict ex_collab ([[1, 2], [1, 2]] ! j) [0]) = Inr a) \<longrightarrow>
       weighted_next_q_spec ex_collab [[1, 2], [1, 2]] (n_fitted_target_models ?U) 2 [0] =
         mean_q ex_collab [[1, 2], [1, 2]] (n_fitted_target_models ?U) [0] a"
    by simp
  have "weighted_next_q_spec ex_collab [[1, 2], [1, 2]] 1 2 [0] =
         mean_q ex_collab [[1, 2], [1, 2]] 1 [0] 1"
    using U2 [rule_format, of 1] am1 unfolding n1 by simp
  also have "\<dots> = 2" by (simp add: mean_q_def ex_collab_def)
  finally have v1: "weighted_next_q_spec ex_collab [[1, 2], [1, 2]] 1 2 [0] = 2" .
  have U1: "next_q ex_collab ?U [[0]] [False] =
      Inr [weighted_next_q_spec ex_collab [[1, 2], [1, 2]] 1 2 [0]]"
    using U unfolding n1 by simp
  have r1: "next_q ex_collab ?U [[0]] [False] = Inr [2]"
    unfolding U1 v1 ..
  show ?thesis
    using h1 h2 h3 n2 p h7 am ev sp(1) r am1 r1 by simp
qed

text \<open>
  The claim as stated, the dot product for every sample, fails on an absorbing sample:
  on the agent the constructor and \<open>initialize\<close> give, with one fitted slot predicting
  \<open>[1, 2]\<close>, the dot product is 2 and the value returned is 0.
\<close>

theorem weighted_absorbing_is_not_dot_product:
  "ex_weighted [[1, 2], [1, 2]] 1 = initialize 2 (ex_agent WeightedDQN (Some 2)) \<and>
   next_q ex_collab (ex_weighted [[1, 2], [1, 2]] 1) [[0]] [True] = Inr [0] \<and>
   weighted_next_q_spec ex_collab [[1, 2], [1, 2]] 1 2 [0] = 2 \<and>
   next_q ex_collab (ex_weighted [[1, 2], [1, 2]] 1) [[0]] [True] \<noteq>
     Inr [weighted_next_q_spec ex_collab [[1, 2], [1, 2]] 1 2 [0]]"
proof -
  have a: "ex_weighted [[1, 2], [1, 2]] 1 = initialize 2 (ex_agent WeightedDQN (Some 2))"
    unfolding ex_weighted_eq
    by (simp add: initialize_def ex_agent_def ex_init_def ex_params_def dqn_init_def
        numeral_2_eq_2)
  have b: "next_q ex_collab (ex_weighted [[1, 2], [1, 2]] 1) [[0]] [True] = Inr [0]"
    unfolding ex_weighted_eq by (simp add: ex_eval_weighted)
  have c: "weighted_next_q_spec ex_collab [[1, 2], [1, 2]] 1 2 [0] = 2"
    by (simp add: weighted_next_q_spec_def weight_spec_def mean_q_def ex_collab_def
        numeral_2_eq_2)
  show ?thesis unfolding b c using a by simp
qed

subsection \<open>An episode: no-op actions, then the policy\<close>

lemma draw_action_noop:
  assumes "no_op_actions s = Some n" "episode_steps s < n"
  shows "draw_action c x s =
     (Inr (no_op_action_value s),
      s\<lparr>buffer := buf_add (buffer_size s) x (buffer s),
        calls := calls s @ [BufferAdd, PolicyUpdate],
        policy := pi_update c (policy s),
        episode_steps := episode_steps s + 1\<rparr>)"
  using assms by (simp add: draw_action_def Let_def)

lemma buf_add_length: "length (buf_add cap x b) = min (length b + 1) cap"
  by (simp add: buf_add_def Let_def)

lemma draw_action_policy:
  assumes "no_op_actions s = Some n" "\<not> episode_steps s < n"
    "buffer_size s \<le> length (buffer s) + 1"
  shows "draw_action c x s =
     (Inr (fst (pi_draw_action c (approximator s) (buf_add (buffer_size s) x (buffer s)) (policy s))),
      s\<lparr>buffer := buf_add (buffer_size s) x (buffer s),
        calls := calls s @ [BufferAdd, BufferGet, PolicyDrawAction],
        policy := snd (pi_draw_action c (approximator s) (buf_add (buffer_size s) x (buffer s)) (policy s)),
        episode_steps := episode_steps s + 1\<rparr>)"
proof -
  have "\<not> length (buf_add (buffer_size s) x (buffer s)) < buffer_size s"
    using assms(3) by (simp add: buf_add_length)
  then show ?thesis
    using assms(1,2) by (simp add: draw_action_def Let_def buf_get_def split_def)
qed

lemma draw_actions_snoc:
  "draw_actions c (xs @ [x]) s =
     (case draw_actions c xs s of
        (Inl e, s') \<Rightarrow> (Inl e, s')
      | (Inr acts, s') \<Rightarrow>
          (case draw_action c x s' of
             (Inl e, s'') \<Rightarrow> (Inl e, s'')
           | (Inr a, s'') \<Rightarrow> (Inr (acts @ [a]), s'')))"
proof (induction xs arbitrary: s)
  case Nil
  then show ?case by (simp split: prod.splits sum.splits)
next
  case (Cons y xs)
  show ?case
    by (simp add: Cons.IH split: prod.splits sum.splits)
qed


lemma episode_run:
  assumes n: "no_op_actions s0 = Some n" and hl: "int (buffer_size s0) \<le> n"
    and z: "episode_steps s0 = 0"
  shows "\<exists>acts s1. draw_actions c xs s0 = (Inr acts, s1) \<and> length acts = length xs \<and>
           episode_steps s1 = int (length xs) \<and> no_op_actions s1 = Some n \<and>
           buffer_size s1 = buffer_size s0 \<and>
           no_op_action_value s1 = no_op_action_value s0 \<and>
           min (length xs) (buffer_size s0) \<le> length (buffer s1) \<and>
           (\<forall>i<length xs. int i < n \<longrightarrow> acts ! i = no_op_action_value s0)"
proof (induction xs rule: rev_induct)
  case Nil
  then show ?case using n z by simp
next
  case (snoc x xs)
  then obtain acts s1 where r: "draw_actions c xs s0 = (Inr acts, s1)"
    and l: "length acts = length xs"
    and i: "episode_steps s1 = int (length xs)" "no_op_actions s1 = Some n"
      "buffer_size s1 = buffer_size s0" "no_op_action_value s1 = no_op_action_value s0"
      "min (length xs) (buffer_size s0) \<le> length (buffer s1)"
    and a: "\<forall>i<length xs. int i < n \<longrightarrow> acts ! i = no_op_action_value s0"
    by blast
  show ?case
  proof (cases "episode_steps s1 < n")
    case True
    note d = draw_action_noop [OF i(2) True, of c x]
    have "(acts @ [no_op_action_value s1]) ! j = no_op_action_value s0"
      if "j < length (xs @ [x])" "int j < n" for j
      using that a l i(4) by (cases "j < length xs") (auto simp: nth_append)
    then show ?thesis
      unfolding draw_actions_snoc r using d l i
      by (simp add: buf_add_length)
  next
    case False
    have full: "buffer_size s1 \<le> length (buffer s1) + 1"
      using False i(1,3,5) hl by simp
    note d = draw_action_policy [OF i(2) False full, of c x]
    have "(acts @ [b]) ! j = no_op_action_value s0"
      if "j < length (xs @ [x])" "int j < n" for j b
      using that a l False i(1) by (cases "j < length xs") (auto simp: nth_append)
    then show ?thesis
      unfolding draw_actions_snoc r using d l i full
      by (simp add: buf_add_length)
  qed
qed

lemma ex_noop_agent_eq:
  "ex_noop_agent =
     \<lparr>kind = DQN, batch_size = Some 1, n_approximators = 1, clip_reward = True,
      target_update_frequency = Some 2, max_no_op_actions = 3, no_op_action_value = 0,
      replay_memory = [], buffer_size = 2, buffer = [], n_updates = 0, episode_steps = 0,
      no_op_actions = None, approximator = [1, 2], target_approximator = Single [1, 2],
      policy = 0, gamma = 1 / 2, mdp_info = None, n_fitted_target_models = 0, calls = []\<rparr>"
  by (simp add: ex_noop_agent_def ex_params_def dqn_init_def)

text \<open>
  Claim C9. When \<open>episode_start\<close> returns, \<open>episode_steps\<close> is 0 and \<open>no_op_actions\<close> is a
  number \<open>n\<close> of the inclusive range from \<open>history_length\<close> (the size of the frame buffer)
  to \<open>max_no_op_actions\<close>; every number of that range is the outcome of some draw. From
  there, any sequence of \<open>draw_action\<close> calls returns without an exception, and after
  \<open>k\<close> calls \<open>episode_steps\<close> is \<open>k\<close>. The call number \<open>k + 1\<close> pushes its state into the
  frame buffer and adds 1 to \<open>episode_steps\<close>; while \<open>k < n\<close> it returns the no-op action
  and calls \<open>policy.update()\<close> and nothing else (the approximator is not consulted),
  and from \<open>k = n\<close> on it reads the frame buffer, which is full by then, and returns the
  action the policy draws for the extended state over the train approximator.
  That the draw is uniform is NumPy's; the model gives the set of its outcomes.
\<close>

theorem episode_no_op_then_policy:
  assumes st: "episode_start r s = (Inr (), s0)"
  shows "episode_steps s0 = 0 \<and>
    (\<exists>n. no_op_actions s0 = Some n \<and> int (buffer_size s) \<le> n \<and> n \<le> max_no_op_actions s \<and>
       (\<forall>xs x. \<exists>acts s1.
          draw_actions c xs s0 = (Inr acts, s1) \<and> length acts = length xs \<and>
          episode_steps s1 = int (length xs) \<and>
          (\<forall>i<length xs. int i < n \<longrightarrow> acts ! i = no_op_action_value s) \<and>
          draw_action c x s1 =
            (if int (length xs) < n
             then (Inr (no_op_action_value s),
                   s1\<lparr>buffer := buf_add (buffer_size s) x (buffer s1),
                      calls := calls s1 @ [BufferAdd, PolicyUpdate],
                      policy := pi_update c (policy s1),
                      episode_steps := int (length xs) + 1\<rparr>)
             else (Inr (fst (pi_draw_action c (approximator s1)
                               (buf_add (buffer_size s) x (buffer s1)) (policy s1))),
                   s1\<lparr>buffer := buf_add (buffer_size s) x (buffer s1),
                      calls := calls s1 @ [BufferAdd, BufferGet, PolicyDrawAction],
                      policy := snd (pi_draw_action c (approximator s1)
                                       (buf_add (buffer_size s) x (buffer s1)) (policy s1)),
                      episode_steps := int (length xs) + 1\<rparr>)))) \<and>
    (\<forall>m. int (buffer_size s) \<le> m \<and> m \<le> max_no_op_actions s \<longrightarrow>
       (\<exists>r'. episode_start r' s = (Inr (), s\<lparr>no_op_actions := Some m, episode_steps := 0\<rparr>)))"
proof -
  from st obtain n where n: "np_randint (int (buffer_size s)) (max_no_op_actions s + 1) r = Inr n"
    and s0: "s0 = s\<lparr>no_op_actions := Some n, episode_steps := 0\<rparr>"
    by (auto simp: episode_start_def split: sum.splits)
  have rng: "int (buffer_size s) \<le> n" "n \<le> max_no_op_actions s"
  proof -
    from n have lt: "int (buffer_size s) < max_no_op_actions s + 1"
      and e: "n = int (buffer_size s) + int r mod (max_no_op_actions s + 1 - int (buffer_size s))"
      by (auto simp: np_randint_def split: if_splits)
    have "0 \<le> int r mod (max_no_op_actions s + 1 - int (buffer_size s))"
      "int r mod (max_no_op_actions s + 1 - int (buffer_size s)) <
         max_no_op_actions s + 1 - int (buffer_size s)"
      using lt by simp_all
    then show "int (buffer_size s) \<le> n" "n \<le> max_no_op_actions s"
      unfolding e by linarith+
  qed
  have f: "no_op_actions s0 = Some n" "int (buffer_size s0) \<le> n" "episode_steps s0 = 0"
    "buffer_size s0 = buffer_size s" "no_op_action_value s0 = no_op_action_value s"
    using rng by (simp_all add: s0)
  have step: "\<exists>acts s1.
          draw_actions c xs s0 = (Inr acts, s1) \<and> length acts = length xs \<and>
          episode_steps s1 = int (length xs) \<and>
          (\<forall>i<length xs. int i < n \<longrightarrow> acts ! i = no_op_action_value s) \<and>
          draw_action c x s1 =
            (if int (length xs) < n
             then (Inr (no_op_action_value s),
                   s1\<lparr>buffer := buf_add (buffer_size s) x (buffer s1),
                      calls := calls s1 @ [BufferAdd, PolicyUpdate],
                      policy := pi_update c (policy s1),
                      episode_steps := int (length xs) + 1\<rparr>)
             else (Inr (fst (pi_draw_action c (approximator s1)
                               (buf_add (buffer_size s) x (buffer s1)) (policy s1))),
                   s1\<lparr>buffer := buf_add (buffer_size s) x (buffer s1),
                      calls := calls s1 @ [BufferAdd, BufferGet, PolicyDrawAction],
                      policy := snd (pi_draw_action c (approximator s1)
                                       (buf_add (buffer_size s) x (buffer s1)) (policy s1)),
                      episode_steps := int (length xs) + 1\<rparr>))" for xs x
  proof -
    from episode_run [OF f(1,2,3), of c xs]
    obtain acts s1 where r: "draw_actions c xs s0 = (Inr acts, s1)"
      and l: "length acts = length xs"
      and i: "episode_steps s1 = int (length xs)" "no_op_actions s1 = Some n"
        "buffer_size s1 = buffer_size s0" "no_op_action_value s1 = no_op_action_value s0"
        "min (length xs) (buffer_size s0) \<le> length (buffer s1)"
      and a: "\<forall>i<length xs. int i < n \<longrightarrow> acts ! i = no_op_action_value s0"
      by blast
    have d: "draw_action c x s1 =
            (if int (length xs) < n
             then (Inr (no_op_action_value s),
                   s1\<lparr>buffer := buf_add (buffer_size s) x (buffer s1),
                      calls := calls s1 @ [BufferAdd, PolicyUpdate],
                      policy := pi_update c (policy s1),
                      episode_steps := int (length xs) + 1\<rparr>)
             else (Inr (fst (pi_draw_action c (approximator s1)
                               (buf_add (buffer_size s) x (buffer s1)) (policy s1))),
                   s1\<lparr>buffer := buf_add (buffer_size s) x (buffer s1),
                      calls := calls s1 @ [BufferAdd, BufferGet, PolicyDrawAction],
                      policy := snd (pi_draw_action c (approximator s1)
                                       (buf_add (buffer_size s) x (buffer s1)) (policy s1)),
                      episode_steps := int (length xs) + 1\<rparr>))"
    proof (cases "int (length xs) < n")
      case True
      then have "episode_steps s1 < n" using i(1) by simp
      from draw_action_noop [OF i(2) this, of c x] True show ?thesis
        by (simp add: i f(4,5))
    next
      case False
      then have ns: "\<not> episode_steps s1 < n" using i(1) by simp
      have full: "buffer_size s1 \<le> length (buffer s1) + 1"
        using False i(3,5) f(2) by simp
      from draw_action_policy [OF i(2) ns full, of c x] False show ?thesis
        by (simp add: i f(4,5))
    qed
    show ?thesis using r l i(1) a d f(5) by simp
  qed
  have att: "\<exists>r'. episode_start r' s = (Inr (), s\<lparr>no_op_actions := Some m, episode_steps := 0\<rparr>)"
    if m: "int (buffer_size s) \<le> m" "m \<le> max_no_op_actions s" for m
  proof -
    have "int (nat (m - int (buffer_size s))) mod (max_no_op_actions s + 1 - int (buffer_size s)) =
          m - int (buffer_size s)"
      using m by (simp add: mod_pos_pos_trivial)
    then have "np_randint (int (buffer_size s)) (max_no_op_actions s + 1)
                 (nat (m - int (buffer_size s))) = Inr m"
      using m by (simp add: np_randint_def)
    then have "episode_start (nat (m - int (buffer_size s))) s =
                 (Inr (), s\<lparr>no_op_actions := Some m, episode_steps := 0\<rparr>)"
      by (simp add: episode_start_def)
    then show ?thesis ..
  qed
  show ?thesis using f(1,3) rng step att by blast
qed




theorem episode_no_op_then_policy_witness:
  "episode_start 3 ex_noop_agent =
     (Inr (), ex_noop_agent\<lparr>no_op_actions := Some 3, episode_steps := 0\<rparr>) \<and>
   int (buffer_size ex_noop_agent) \<le> 2 \<and> 2 \<le> max_no_op_actions ex_noop_agent \<and>
   episode_steps (ex_noop_agent\<lparr>no_op_actions := Some 3, episode_steps := 0\<rparr>) = 0 \<and>
   fst (draw_actions ex_collab [10, 11, 12, 13, 14]
          (ex_noop_agent\<lparr>no_op_actions := Some 3, episode_steps := 0\<rparr>)) = Inr [0, 0, 0, 7, 7] \<and>
   policy (snd (draw_actions ex_collab [10, 11, 12, 13, 14]
          (ex_noop_agent\<lparr>no_op_actions := Some 3, episode_steps := 0\<rparr>))) = 3 \<and>
   buffer (snd (draw_actions ex_collab [10, 11, 12, 13, 14]
          (ex_noop_agent\<lparr>no_op_actions := Some 3, episode_steps := 0\<rparr>))) = [13, 14]"
proof -
  have h: "episode_start 3 ex_noop_agent =
     (Inr (), ex_noop_agent\<lparr>no_op_actions := Some 3, episode_steps := 0\<rparr>)"
    by (simp add: ex_noop_agent_eq episode_start_def np_randint_def)
  have e: "fst (draw_actions ex_collab [10, 11, 12, 13, 14]
          (ex_noop_agent\<lparr>no_op_actions := Some 3, episode_steps := 0\<rparr>)) = Inr [0, 0, 0, 7, 7] \<and>
   policy (snd (draw_actions ex_collab [10, 11, 12, 13, 14]
          (ex_noop_agent\<lparr>no_op_actions := Some 3, episode_steps := 0\<rparr>))) = 3 \<and>
   buffer (snd (draw_actions ex_collab [10, 11, 12, 13, 14]
          (ex_noop_agent\<lparr>no_op_actions := Some 3, episode_steps := 0\<rparr>))) = [13, 14]"
    by (simp add: ex_noop_agent_eq draw_action_def Let_def buf_add_def buf_get_def ex_collab_def)
  show ?thesis
    using h e episode_no_op_then_policy [OF h, of ex_collab]
    by (simp add: ex_noop_agent_eq)
qed

end
